theory Spec2Isabelle
  imports Complex_Main "HOL-Library.Log_Nat" "HOL-Library.Product_Lexorder"
begin

section \<open>Python values and exceptions\<close>

text \<open>
  The program is \<^verbatim>\<open>weather.py\<close>: a CSV loader, scalar converters, aggregators and two
  summary generators. A Python \<^verbatim>\<open>str\<close> is modelled as a \<^typ>\<open>string\<close> whose characters are
  code points below 256 (Latin-1), so the degree sign U+00B0 is the single character
  \<open>CHR 0xB0\<close>. Python's unbounded \<^verbatim>\<open>int\<close> is \<^typ>\<open>int\<close>. Exceptions are values: a function that
  can raise returns \<open>exn + 'a\<close>, with \<open>Inl\<close> for the exception.
\<close>

datatype exn = ValueError | OverflowError | TypeError | IndexError | ZeroDivisionError

text \<open>
  A Python \<^verbatim>\<open>float\<close> is an IEEE 754 binary64 value. \<open>Fin m e\<close> is the finite value
  \<open>m * 2 ^ e\<close>, kept normalised: \<open>m\<close> is odd, or the value is \<open>Fin 0 0\<close>, which is \<^verbatim>\<open>0.0\<close>.
  \<open>NegZero\<close> is \<^verbatim>\<open>-0.0\<close>.
\<close>

datatype pyfloat = Fin int int | NegZero | PosInf | NegInf | NaN

text \<open>
  A value the functions receive: a field of a loaded row is an integer or a string, and
  the aggregators are also called with floats.
\<close>

datatype pyval = PInt int | PFloat pyfloat | PStr string

section \<open>The built-in \<^verbatim>\<open>int(str)\<close>\<close>

text \<open>
  \<^verbatim>\<open>int(s)\<close> for a string: surrounding whitespace is stripped, then an optional sign and a
  run of decimal digits in which single underscores may stand between digits. More than
  4300 digits are refused (CPython's default limit on integer string conversion).
\<close>

definition py_isspace :: "char \<Rightarrow> bool" where
  "py_isspace c = (c \<in> {CHR 0x09, CHR 0x0A, CHR 0x0B, CHR 0x0C, CHR 0x0D, CHR 0x20, CHR 0x85, CHR 0xA0})"

definition py_strip :: "string \<Rightarrow> string" where
  "py_strip s = rev (dropWhile py_isspace (rev (dropWhile py_isspace s)))"

definition is_digit :: "char \<Rightarrow> bool" where
  "is_digit c = (48 \<le> (of_char c :: nat) \<and> (of_char c :: nat) \<le> 57)"

definition digit_val :: "char \<Rightarrow> int" where
  "digit_val c = int (of_char c) - 48"

definition digits_val :: "string \<Rightarrow> int" where
  "digits_val ds = foldl (\<lambda>a c. 10 * a + digit_val c) 0 ds"

fun digit_run :: "string \<Rightarrow> string option" where
  "digit_run [] = None"
| "digit_run (c # cs) =
     (if is_digit c then
        (case cs of
           [] \<Rightarrow> Some [c]
         | d # ds \<Rightarrow>
             if d = CHR ''_'' then map_option (Cons c) (digit_run ds)
             else map_option (Cons c) (digit_run cs))
      else None)"

definition split_sign :: "string \<Rightarrow> bool \<times> string" where
  "split_sign s =
     (case s of
        [] \<Rightarrow> (False, [])
      | c # cs \<Rightarrow> if c = CHR ''-'' then (True, cs) else if c = CHR ''+'' then (False, cs) else (False, s))"

definition py_int :: "string \<Rightarrow> int option" where
  "py_int s =
     (case split_sign (py_strip s) of
        (neg, body) \<Rightarrow>
          (case digit_run body of
             None \<Rightarrow> None
           | Some ds \<Rightarrow>
               if 4300 < length ds then None
               else Some (if neg then - digits_val ds else digits_val ds)))"

section \<open>Binary64 arithmetic\<close>

text \<open>
  Every operation computes the exact result as a fraction of integers and rounds it once
  to the nearest binary64 value, ties to even (\<open>fl_frac\<close>): 53 bits of precision, the
  smallest exponent of a normal number is \<open>-1022\<close>, and a rounded magnitude of
  \<open>2 ^ 1024\<close> or more is an infinity.
\<close>

function norm_dyadic :: "int \<Rightarrow> int \<Rightarrow> int \<times> int" where
  "norm_dyadic m e = (if m \<noteq> 0 \<and> even m then norm_dyadic (m div 2) (e + 1) else (m, e))"
  by pat_completeness auto
termination
  by (relation "measure (\<lambda>(m, e). nat \<bar>m\<bar>)") auto

declare norm_dyadic.simps [simp del]

text \<open>\<open>ilog2_frac a b\<close> is the integer part of the binary logarithm of \<open>a / b\<close>, for positive \<open>a\<close> and \<open>b\<close>.\<close>

definition ilog2_frac :: "int \<Rightarrow> int \<Rightarrow> int" where
  "ilog2_frac a b =
     (let e = bitlen a - bitlen b
      in if (if 0 \<le> e then b * 2 ^ nat e \<le> a else b \<le> a * 2 ^ nat (- e)) then e else e - 1)"

text \<open>\<open>div_half_even a b\<close> is \<open>a / b\<close> rounded to the nearest integer, ties to even.\<close>

definition div_half_even :: "int \<Rightarrow> int \<Rightarrow> int" where
  "div_half_even a b =
     (let q = a div b; r = a mod b
      in if 2 * r < b then q else if b < 2 * r then q + 1 else if even q then q else q + 1)"

text \<open>\<open>fl_frac neg a b\<close> rounds the magnitude \<open>a / b\<close> (\<open>0 \<le> a\<close>, \<open>0 < b\<close>) with the sign \<open>neg\<close>.\<close>

definition fl_frac :: "bool \<Rightarrow> int \<Rightarrow> int \<Rightarrow> pyfloat" where
  "fl_frac neg a b =
     (if a = 0 then (if neg then NegZero else Fin 0 0)
      else let s = max (ilog2_frac a b) (- 1022) - 52;
               n = (if 0 \<le> s then div_half_even a (b * 2 ^ nat s)
                    else div_half_even (a * 2 ^ nat (- s)) b)
           in if 2 ^ nat (1024 - s) \<le> n then (if neg then NegInf else PosInf)
              else if n = 0 then (if neg then NegZero else Fin 0 0)
              else (case norm_dyadic n s of (m, e) \<Rightarrow> Fin (if neg then - m else m) e))"

text \<open>The magnitude \<open>m * 2 ^ e\<close> with \<open>0 \<le> m\<close>, rounded.\<close>

definition fl_mag :: "bool \<Rightarrow> int \<Rightarrow> int \<Rightarrow> pyfloat" where
  "fl_mag neg m e = (if 0 \<le> e then fl_frac neg (m * 2 ^ nat e) 1 else fl_frac neg m (2 ^ nat (- e)))"

fun is_neg :: "pyfloat \<Rightarrow> bool" where
  "is_neg (Fin m e) = (m < 0)"
| "is_neg NegZero = True"
| "is_neg PosInf = False"
| "is_neg NegInf = True"
| "is_neg NaN = False"

fun is_zero :: "pyfloat \<Rightarrow> bool" where
  "is_zero (Fin m e) = (m = 0)"
| "is_zero NegZero = True"
| "is_zero PosInf = False"
| "is_zero NegInf = False"
| "is_zero NaN = False"

fun is_inf :: "pyfloat \<Rightarrow> bool" where
  "is_inf PosInf = True"
| "is_inf NegInf = True"
| "is_inf (Fin m e) = False"
| "is_inf NegZero = False"
| "is_inf NaN = False"

text \<open>The magnitude of a finite value as mantissa and exponent.\<close>

fun mag :: "pyfloat \<Rightarrow> int \<times> int" where
  "mag (Fin m e) = (\<bar>m\<bar>, e)"
| "mag NegZero = (0, 0)"
| "mag PosInf = (0, 0)"
| "mag NegInf = (0, 0)"
| "mag NaN = (0, 0)"

fun fneg :: "pyfloat \<Rightarrow> pyfloat" where
  "fneg (Fin m e) = (if m = 0 then NegZero else Fin (- m) e)"
| "fneg NegZero = Fin 0 0"
| "fneg PosInf = NegInf"
| "fneg NegInf = PosInf"
| "fneg NaN = NaN"

definition signed_inf :: "bool \<Rightarrow> pyfloat" where
  "signed_inf neg = (if neg then NegInf else PosInf)"

definition signed_zero :: "bool \<Rightarrow> pyfloat" where
  "signed_zero neg = (if neg then NegZero else Fin 0 0)"

text \<open>Float addition \<^verbatim>\<open>a + b\<close>.\<close>

definition fadd :: "pyfloat \<Rightarrow> pyfloat \<Rightarrow> pyfloat" where
  "fadd a b =
     (if a = NaN \<or> b = NaN then NaN
      else if is_inf a then (if is_inf b \<and> a \<noteq> b then NaN else a)
      else if is_inf b then b
      else if a = NegZero then b
      else if b = NegZero then a
      else (case (a, b) of
              (Fin m1 e1, Fin m2 e2) \<Rightarrow>
                (let e = min e1 e2;
                     s = m1 * 2 ^ nat (e1 - e) + m2 * 2 ^ nat (e2 - e)
                 in fl_mag (s < 0) \<bar>s\<bar> e)
            | _ \<Rightarrow> NaN))"

text \<open>Float subtraction \<^verbatim>\<open>a - b\<close>.\<close>

definition fsub :: "pyfloat \<Rightarrow> pyfloat \<Rightarrow> pyfloat" where
  "fsub a b = fadd a (fneg b)"

text \<open>Float multiplication \<^verbatim>\<open>a * b\<close>.\<close>

definition fmul :: "pyfloat \<Rightarrow> pyfloat \<Rightarrow> pyfloat" where
  "fmul a b =
     (if a = NaN \<or> b = NaN then NaN
      else let neg = (is_neg a \<noteq> is_neg b)
           in if is_inf a \<or> is_inf b then
                (if is_zero a \<or> is_zero b then NaN else signed_inf neg)
              else (case (mag a, mag b) of
                      ((m1, e1), (m2, e2)) \<Rightarrow> fl_mag neg (m1 * m2) (e1 + e2)))"

text \<open>Float division \<^verbatim>\<open>a / b\<close>: Python raises \<^verbatim>\<open>ZeroDivisionError\<close> for a zero divisor.\<close>

definition fdiv :: "pyfloat \<Rightarrow> pyfloat \<Rightarrow> exn + pyfloat" where
  "fdiv a b =
     (if is_zero b then Inl ZeroDivisionError
      else if a = NaN \<or> b = NaN then Inr NaN
      else let neg = (is_neg a \<noteq> is_neg b)
           in if is_inf a then (if is_inf b then Inr NaN else Inr (signed_inf neg))
              else if is_inf b then Inr (signed_zero neg)
              else (case (mag a, mag b) of
                      ((m1, e1), (m2, e2)) \<Rightarrow>
                        if 0 \<le> e1 - e2 then Inr (fl_frac neg (m1 * 2 ^ nat (e1 - e2)) m2)
                        else Inr (fl_frac neg m1 (m2 * 2 ^ nat (e2 - e1)))))"

text \<open>
  The comparisons \<^verbatim>\<open>a < b\<close> and \<^verbatim>\<open>a == b\<close> of two floats: false whenever one is a NaN, and
  the two zeros are equal. \<open>rank\<close> orders the infinities around the finite values.
\<close>

fun rank :: "pyfloat \<Rightarrow> int" where
  "rank NegInf = - 1"
| "rank PosInf = 1"
| "rank (Fin m e) = 0"
| "rank NegZero = 0"
| "rank NaN = 0"

fun signed_mag :: "pyfloat \<Rightarrow> int \<times> int" where
  "signed_mag (Fin m e) = (m, e)"
| "signed_mag NegZero = (0, 0)"
| "signed_mag PosInf = (0, 0)"
| "signed_mag NegInf = (0, 0)"
| "signed_mag NaN = (0, 0)"

definition flt :: "pyfloat \<Rightarrow> pyfloat \<Rightarrow> bool" where
  "flt a b =
     (a \<noteq> NaN \<and> b \<noteq> NaN \<and>
      (rank a < rank b \<or>
       rank a = rank b \<and>
         (case (signed_mag a, signed_mag b) of
            ((m1, e1), (m2, e2)) \<Rightarrow>
              (let e = min e1 e2 in m1 * 2 ^ nat (e1 - e) < m2 * 2 ^ nat (e2 - e)))))"

definition feq :: "pyfloat \<Rightarrow> pyfloat \<Rightarrow> bool" where
  "feq a b =
     (a \<noteq> NaN \<and> b \<noteq> NaN \<and> rank a = rank b \<and>
      (case (signed_mag a, signed_mag b) of
         ((m1, e1), (m2, e2)) \<Rightarrow>
           (let e = min e1 e2 in m1 * 2 ^ nat (e1 - e) = m2 * 2 ^ nat (e2 - e))))"

definition fle :: "pyfloat \<Rightarrow> pyfloat \<Rightarrow> bool" where
  "fle a b = (flt a b \<or> feq a b)"

text \<open>
  The place of a float on the extended number line, for the proofs: its rank and its exact
  value as a rational, ordered lexicographically. Both zeros have the value 0.
\<close>

definition fval :: "pyfloat \<Rightarrow> rat" where
  "fval a = (case signed_mag a of (m, e) \<Rightarrow> of_int m * 2 powi e)"

definition fkey :: "pyfloat \<Rightarrow> int \<times> rat" where
  "fkey a = (rank a, fval a)"

text \<open>
  \<^verbatim>\<open>float(n)\<close> for an integer: the nearest float, and \<^verbatim>\<open>OverflowError\<close> when that is an
  infinity.
\<close>

definition int_to_float :: "int \<Rightarrow> exn + pyfloat" where
  "int_to_float n =
     (let r = fl_frac (n < 0) \<bar>n\<bar> 1 in if is_inf r then Inl OverflowError else Inr r)"

text \<open>The float of a small integer literal of the source (\<^verbatim>\<open>32\<close>, \<^verbatim>\<open>5\<close>, \<^verbatim>\<open>9\<close>).\<close>

definition float_lit :: "int \<Rightarrow> pyfloat" where
  "float_lit n = fl_frac (n < 0) \<bar>n\<bar> 1"

text \<open>
  \<^verbatim>\<open>round(x, 1)\<close>: the decimal with one digit after the point nearest to the exact value of
  \<open>x\<close> (ties to even), converted back to the nearest float; infinities and NaN are returned
  as they are, and the sign of \<open>x\<close> is kept.
\<close>

definition py_round1 :: "pyfloat \<Rightarrow> pyfloat" where
  "py_round1 x =
     (case x of
        Fin m e \<Rightarrow>
          (let d = (if 0 \<le> e then \<bar>m\<bar> * 2 ^ nat e * 10
                    else div_half_even (\<bar>m\<bar> * 10) (2 ^ nat (- e)))
           in fl_frac (m < 0) d 10)
      | _ \<Rightarrow> x)"

section \<open>The built-in \<^verbatim>\<open>float\<close> and the text of a value\<close>

text \<open>
  \<^verbatim>\<open>float(s)\<close> for a string: surrounding whitespace is stripped; underscores may stand between
  digits only and are removed; what remains is an optional sign and \<^verbatim>\<open>inf\<close>, \<^verbatim>\<open>infinity\<close> or
  \<^verbatim>\<open>nan\<close> in any letter case, or a decimal numeral with an optional fraction and an optional
  exponent. The numeral is rounded once; a numeral too large is an infinity, not an error.
\<close>

fun strip_underscores :: "char \<Rightarrow> string \<Rightarrow> string option" where
  "strip_underscores prev [] = (if prev = CHR ''_'' then None else Some [])"
| "strip_underscores prev (c # cs) =
     (if c = CHR ''_'' then (if is_digit prev then strip_underscores c cs else None)
      else if prev = CHR ''_'' \<and> \<not> is_digit c then None
      else map_option (Cons c) (strip_underscores c cs))"

definition to_lower :: "char \<Rightarrow> char" where
  "to_lower c =
     (if 65 \<le> (of_char c :: nat) \<and> (of_char c :: nat) \<le> 90 then char_of ((of_char c :: nat) + 32) else c)"

definition parse_decimal :: "bool \<Rightarrow> string \<Rightarrow> pyfloat option" where
  "parse_decimal neg body =
     (let ip = takeWhile is_digit body;
          r1 = dropWhile is_digit body;
          has_point = (r1 \<noteq> [] \<and> hd r1 = CHR ''.'');
          fp = (if has_point then takeWhile is_digit (tl r1) else []);
          r2 = (if has_point then dropWhile is_digit (tl r1) else r1)
      in if ip = [] \<and> fp = [] then None
         else
           (case (if r2 = [] then Some 0
                  else if hd r2 = CHR ''e'' \<or> hd r2 = CHR ''E'' then
                    (case split_sign (tl r2) of
                       (eneg, ed) \<Rightarrow>
                         if ed \<noteq> [] \<and> list_all is_digit ed
                         then Some (if eneg then - digits_val ed else digits_val ed)
                         else None)
                  else None) of
              None \<Rightarrow> None
            | Some x \<Rightarrow>
                (let k = x - int (length fp); m = digits_val (ip @ fp)
                 in Some (if 0 \<le> k then fl_frac neg (m * 10 ^ nat k) 1
                          else fl_frac neg m (10 ^ nat (- k))))))"

definition float_of_string :: "string \<Rightarrow> pyfloat option" where
  "float_of_string s =
     (case strip_underscores (CHR 0x00) (py_strip s) of
        None \<Rightarrow> None
      | Some t \<Rightarrow>
          (case split_sign t of
             (neg, body) \<Rightarrow>
               if map to_lower body = ''inf'' \<or> map to_lower body = ''infinity''
               then Some (signed_inf neg)
               else if map to_lower body = ''nan'' then Some NaN
               else parse_decimal neg body))"

text \<open>\<^verbatim>\<open>float(value)\<close>: a float is returned as it is.\<close>

definition py_float :: "pyval \<Rightarrow> exn + pyfloat" where
  "py_float v =
     (case v of
        PInt n \<Rightarrow> int_to_float n
      | PFloat f \<Rightarrow> Inr f
      | PStr s \<Rightarrow> (case float_of_string s of None \<Rightarrow> Inl ValueError | Some f \<Rightarrow> Inr f))"

text \<open>The decimal digits of a non-negative integer, and \<^verbatim>\<open>str(n)\<close> of an integer.\<close>

function int_digits :: "int \<Rightarrow> string" where
  "int_digits n =
     (if n < 10 then [char_of (48 + n)] else int_digits (n div 10) @ [char_of (48 + n mod 10)])"
  by pat_completeness auto
termination
  by (relation "measure nat") auto

declare int_digits.simps [simp del]

definition int_str :: "int \<Rightarrow> string" where
  "int_str n = (if n < 0 then CHR ''-'' # int_digits (- n) else int_digits n)"

text \<open>
  \<^verbatim>\<open>repr\<close> of a float: the shortest decimal digit string that converts back to the same
  float (of two candidates of a length, the one nearer to the exact value), written in
  positional notation when the decimal point lies within \<open>-4 < decpt \<le> 16\<close> and with an
  exponent otherwise.
\<close>

definition ilog10_frac :: "int \<Rightarrow> int \<Rightarrow> int" where
  "ilog10_frac a b =
     (let e = int (length (int_digits a)) - int (length (int_digits b))
      in if (if 0 \<le> e then b * 10 ^ nat e \<le> a else b \<le> a * 10 ^ nat (- e)) then e else e - 1)"

definition fl_dec :: "int \<Rightarrow> int \<Rightarrow> pyfloat" where
  "fl_dec c k = (if 0 \<le> k then fl_frac False (c * 10 ^ nat k) 1 else fl_frac False c (10 ^ nat (- k)))"

definition repr_candidate :: "int \<Rightarrow> int \<Rightarrow> pyfloat \<Rightarrow> int \<Rightarrow> int option" where
  "repr_candidate a b x k =
     (let num = (if 0 \<le> k then a else a * 10 ^ nat (- k));
          den = (if 0 \<le> k then b * 10 ^ nat k else b);
          lo = num div den;
          r = num mod den;
          nearer = (if 2 * r < den \<or> (2 * r = den \<and> even lo) then lo else lo + 1);
          farther = (if nearer = lo then lo + 1 else lo)
      in if fl_dec nearer k = x then Some nearer
         else if fl_dec farther k = x then Some farther
         else None)"

fun shortest_digits :: "nat \<Rightarrow> int \<Rightarrow> int \<Rightarrow> pyfloat \<Rightarrow> int \<Rightarrow> int \<Rightarrow> int \<times> int" where
  "shortest_digits 0 a b x E n = (0, 0)"
| "shortest_digits (Suc fuel) a b x E n =
     (case repr_candidate a b x (E - n + 1) of
        Some c \<Rightarrow> (c, E - n + 1)
      | None \<Rightarrow> shortest_digits fuel a b x E (n + 1))"

definition pad2 :: "string \<Rightarrow> string" where
  "pad2 s = (if length s < 2 then CHR ''0'' # s else s)"

definition repr_finite :: "int \<Rightarrow> int \<Rightarrow> string" where
  "repr_finite m e =
     (let a = (if 0 \<le> e then m * 2 ^ nat e else m);
          b = (if 0 \<le> e then 1 else 2 ^ nat (- e));
          ck = shortest_digits 17 a b (Fin m e) (ilog10_frac a b) 1;
          every = int_digits (fst ck);
          ds = rev (dropWhile (\<lambda>d. d = CHR ''0'') (rev every));
          decpt = int (length every) + snd ck
      in if - 4 < decpt \<and> decpt \<le> 16 then
           (if decpt \<le> 0 then ''0.'' @ replicate (nat (- decpt)) (CHR ''0'') @ ds
            else if int (length ds) \<le> decpt
              then ds @ replicate (nat decpt - length ds) (CHR ''0'') @ ''.0''
            else take (nat decpt) ds @ ''.'' @ drop (nat decpt) ds)
         else take 1 ds @ (if 1 < length ds then ''.'' @ drop 1 ds else [])
              @ ''e'' @ (if decpt - 1 < 0 then ''-'' else ''+'')
              @ pad2 (int_digits \<bar>decpt - 1\<bar>))"

definition float_repr :: "pyfloat \<Rightarrow> string" where
  "float_repr x =
     (case x of
        Fin m e \<Rightarrow>
          if m = 0 then ''0.0''
          else if m < 0 then CHR ''-'' # repr_finite (- m) e
          else repr_finite m e
      | NegZero \<Rightarrow> ''-0.0''
      | PosInf \<Rightarrow> ''inf''
      | NegInf \<Rightarrow> ''-inf''
      | NaN \<Rightarrow> ''nan'')"

text \<open>\<^verbatim>\<open>str(value)\<close>, as an f-string renders a value.\<close>

definition py_str :: "pyval \<Rightarrow> string" where
  "py_str v = (case v of PInt n \<Rightarrow> int_str n | PFloat f \<Rightarrow> float_repr f | PStr s \<Rightarrow> s)"

section \<open>Rows and the CSV loader\<close>

text \<open>
  What \<^verbatim>\<open>open(csv_file, 'r', newline='')\<close> and the iteration of \<^verbatim>\<open>csv.reader(file)\<close> do at a
  path: the file is missing (\<^verbatim>\<open>FileNotFoundError\<close>), opening raises some other exception
  with the given message, or the reader yields the given rows in file order and then
  either ends or raises an exception with the given message. The reader yields the empty
  row \<^verbatim>\<open>[]\<close> for a blank physical line.
\<close>

datatype opened = NoSuchFile | OpenFailure string | CsvFile "string list list" "string option"

type_synonym filesystem = "string \<Rightarrow> opened"

text \<open>One field after the date: \<^verbatim>\<open>int(row[i])\<close>, and the string itself on \<^verbatim>\<open>ValueError\<close>.\<close>

definition convert_field :: "string \<Rightarrow> pyval" where
  "convert_field f = (case py_int f of Some n \<Rightarrow> PInt n | None \<Rightarrow> PStr f)"

text \<open>
  The body of the loop for one non-empty row: \<^verbatim>\<open>processed_row = [row[0]]\<close>, then an append
  for every \<^verbatim>\<open>i in range(1, len(row))\<close>.
\<close>

definition process_row :: "string list \<Rightarrow> pyval list" where
  "process_row row =
     fold (\<lambda>i processed_row. processed_row @ [convert_field (row ! i)])
       [1..<length row] [PStr (row ! 0)]"

text \<open>
  The loop state is \<^verbatim>\<open>header_skipped\<close> and \<^verbatim>\<open>data\<close>. The guard \<^verbatim>\<open>row and ("for cell in row")\<close>
  is the truth value of \<^verbatim>\<open>row\<close>: the string literal is always true.
\<close>

definition loader_step :: "string list \<Rightarrow> bool \<times> pyval list list \<Rightarrow> bool \<times> pyval list list" where
  "loader_step row st =
     (case st of
        (header_skipped, data) \<Rightarrow>
          if row \<noteq> [] then
            (if \<not> header_skipped then (True, data)
             else (header_skipped, data @ [process_row row]))
          else (header_skipped, data))"

definition read_rows :: "string list list \<Rightarrow> pyval list list" where
  "read_rows rows = snd (fold loader_step rows (False, []))"

text \<open>
  \<^verbatim>\<open>load_data_from_csv\<close> returns \<^verbatim>\<open>data\<close>; the second component is what it printed, one
  string per \<^verbatim>\<open>print\<close> call.
\<close>

definition load_data_from_csv :: "filesystem \<Rightarrow> string \<Rightarrow> pyval list list \<times> string list" where
  "load_data_from_csv fs csv_file =
     (case fs csv_file of
        NoSuchFile \<Rightarrow>
          ([], [''Error: The file '' @ [CHR 0x27] @ csv_file @ [CHR 0x27] @ '' does not exist.''])
      | OpenFailure e \<Rightarrow> ([], [''An error occurred: '' @ e])
      | CsvFile rows None \<Rightarrow> (read_rows rows, [])
      | CsvFile rows (Some e) \<Rightarrow> (read_rows rows, [''An error occurred: '' @ e]))"

text \<open>
  The loader as the specification words it: the first physical row is the header, whatever
  it holds, and empty rows after it are skipped.
\<close>

definition spec_read_rows :: "string list list \<Rightarrow> pyval list list" where
  "spec_read_rows rows = map process_row (filter (\<lambda>row. row \<noteq> []) (drop 1 rows))"

section \<open>Sequencing of calls that can raise\<close>

definition exn_bind :: "exn + 'a \<Rightarrow> ('a \<Rightarrow> exn + 'b) \<Rightarrow> exn + 'b" where
  "exn_bind m f = (case m of Inl e \<Rightarrow> Inl e | Inr x \<Rightarrow> f x)"

text \<open>A list comprehension \<^verbatim>\<open>[f(x) for x in xs]\<close>: the first exception ends it.\<close>

fun exn_map :: "('a \<Rightarrow> exn + 'b) \<Rightarrow> 'a list \<Rightarrow> exn + 'b list" where
  "exn_map f [] = Inr []"
| "exn_map f (x # xs) =
     (case f x of
        Inl e \<Rightarrow> Inl e
      | Inr y \<Rightarrow> (case exn_map f xs of Inl e \<Rightarrow> Inl e | Inr ys \<Rightarrow> Inr (y # ys)))"

text \<open>
  The subscript \<^verbatim>\<open>xs[i]\<close> of a list: positions \<open>0 \<le> i < len\<close> are read directly, positions
  \<open>- len \<le> i < 0\<close> are read from the back, and any other position is an \<^verbatim>\<open>IndexError\<close>.
\<close>

definition py_getitem :: "'a list \<Rightarrow> int \<Rightarrow> exn + 'a" where
  "py_getitem xs i =
     (if 0 \<le> i \<and> i < int (length xs) then Inr (xs ! nat i)
      else if - int (length xs) \<le> i \<and> i < 0 then Inr (xs ! nat (int (length xs) + i))
      else Inl IndexError)"

section \<open>Scalar converters\<close>

definition DEGREE_SYMBOL :: string where
  "DEGREE_SYMBOL = [CHR 0xB0, CHR ''C'']"

definition format_temperature :: "pyval \<Rightarrow> string" where
  "format_temperature temp = py_str temp @ DEGREE_SYMBOL"

text \<open>
  \<^verbatim>\<open>celsius = (float(temp_in_fahrenheit) - 32) * 5/9\<close>, evaluated left to right, then
  \<^verbatim>\<open>round(celsius, 1)\<close>.
\<close>

definition convert_f_to_c :: "pyval \<Rightarrow> exn + pyfloat" where
  "convert_f_to_c temp_in_fahrenheit =
     exn_bind (py_float temp_in_fahrenheit) (\<lambda>f.
     exn_bind (fdiv (fmul (fsub f (float_lit 32)) (float_lit 5)) (float_lit 9)) (\<lambda>celsius.
     Inr (py_round1 celsius)))"

subsection \<open>Dates\<close>

text \<open>
  \<^verbatim>\<open>datetime.fromisoformat\<close> is modelled by its documented format
  \<^verbatim>\<open>YYYY-MM-DD[*HH[:MM[:SS[.fff[fff]]]][+HH:MM[:SS[.ffffff]]]]\<close>, where \<^verbatim>\<open>*\<close> is any single
  character; later Python versions accept further ISO 8601 forms. Only the date takes part
  in \<^verbatim>\<open>strftime("%A %d %B %Y")\<close>, which is modelled in the C locale with a four-digit year.
\<close>

datatype date = Date int int int

definition is_leap :: "int \<Rightarrow> bool" where
  "is_leap y = (y mod 4 = 0 \<and> (y mod 100 \<noteq> 0 \<or> y mod 400 = 0))"

definition days_in_month :: "int \<Rightarrow> int \<Rightarrow> int" where
  "days_in_month y m =
     (if m = 2 then (if is_leap y then 29 else 28)
      else if m = 4 \<or> m = 6 \<or> m = 9 \<or> m = 11 then 30 else 31)"

definition days_before_year :: "int \<Rightarrow> int" where
  "days_before_year y = (let p = y - 1 in p * 365 + p div 4 - p div 100 + p div 400)"

definition days_before_month :: "int \<Rightarrow> int \<Rightarrow> int" where
  "days_before_month y m = sum_list (map (days_in_month y) [1..m - 1])"

definition ymd2ord :: "int \<Rightarrow> int \<Rightarrow> int \<Rightarrow> int" where
  "ymd2ord y m d = days_before_year y + days_before_month y m + d"

text \<open>The day of the week, Monday being 0.\<close>

definition weekday :: "date \<Rightarrow> int" where
  "weekday dt = (case dt of Date y m d \<Rightarrow> (ymd2ord y m d + 6) mod 7)"

definition valid_date :: "int \<Rightarrow> int \<Rightarrow> int \<Rightarrow> bool" where
  "valid_date y m d = (1 \<le> y \<and> y \<le> 9999 \<and> 1 \<le> m \<and> m \<le> 12 \<and> 1 \<le> d \<and> d \<le> days_in_month y m)"

definition take_digits :: "nat \<Rightarrow> string \<Rightarrow> (int \<times> string) option" where
  "take_digits n s =
     (if n \<le> length s \<and> list_all is_digit (take n s) then Some (digits_val (take n s), drop n s)
      else None)"

definition starts_with :: "char \<Rightarrow> string \<Rightarrow> bool" where
  "starts_with c s = (s \<noteq> [] \<and> hd s = c)"

text \<open>
  \<open>parse_clock sec_only s\<close> reads \<^verbatim>\<open>HH[:MM[:SS[.fff[fff]]]]\<close> (for a time) or
  \<^verbatim>\<open>HH:MM[:SS[.ffffff]]\<close> (for a UTC offset) from the front of \<open>s\<close> and returns the
  hour, minute and second with what follows.
\<close>

definition parse_fraction :: "bool \<Rightarrow> string \<Rightarrow> string option" where
  "parse_fraction is_offset s =
     (if starts_with (CHR ''.'') s then
        (case take_digits 6 (tl s) of
           Some (u, r) \<Rightarrow> Some r
         | None \<Rightarrow>
             if is_offset then None
             else (case take_digits 3 (tl s) of Some (u, r) \<Rightarrow> Some r | None \<Rightarrow> None))
      else Some s)"

definition parse_clock :: "bool \<Rightarrow> string \<Rightarrow> ((int \<times> int \<times> int) \<times> string) option" where
  "parse_clock is_offset s =
     (case take_digits 2 s of
        None \<Rightarrow> None
      | Some (hh, s1) \<Rightarrow>
          if \<not> starts_with (CHR '':'') s1 then (if is_offset then None else Some ((hh, 0, 0), s1))
          else
            (case take_digits 2 (tl s1) of
               None \<Rightarrow> None
             | Some (mm, s2) \<Rightarrow>
                 if \<not> starts_with (CHR '':'') s2 then Some ((hh, mm, 0), s2)
                 else
                   (case take_digits 2 (tl s2) of
                      None \<Rightarrow> None
                    | Some (ss, s3) \<Rightarrow>
                        (case parse_fraction is_offset s3 of
                           None \<Rightarrow> None
                         | Some s4 \<Rightarrow> Some ((hh, mm, ss), s4)))))"

definition iso_time_ok :: "string \<Rightarrow> bool" where
  "iso_time_ok s =
     (case parse_clock False s of
        None \<Rightarrow> False
      | Some ((hh, mm, ss), r) \<Rightarrow>
          hh < 24 \<and> mm < 60 \<and> ss < 60 \<and>
          (r = [] \<or>
           ((starts_with (CHR ''+'') r \<or> starts_with (CHR ''-'') r) \<and>
            (case parse_clock True (tl r) of
               None \<Rightarrow> False
             | Some ((oh, om, os), r') \<Rightarrow> r' = [] \<and> oh * 3600 + om * 60 + os < 86400))))"

definition py_fromisoformat :: "string \<Rightarrow> exn + date" where
  "py_fromisoformat s =
     (case take_digits 4 s of
        None \<Rightarrow> Inl ValueError
      | Some (y, s1) \<Rightarrow>
          if \<not> starts_with (CHR ''-'') s1 then Inl ValueError
          else
            (case take_digits 2 (tl s1) of
               None \<Rightarrow> Inl ValueError
             | Some (m, s2) \<Rightarrow>
                 if \<not> starts_with (CHR ''-'') s2 then Inl ValueError
                 else
                   (case take_digits 2 (tl s2) of
                      None \<Rightarrow> Inl ValueError
                    | Some (d, s3) \<Rightarrow>
                        if (s3 = [] \<or> iso_time_ok (tl s3)) \<and> valid_date y m d
                        then Inr (Date y m d)
                        else Inl ValueError)))"

definition weekday_name :: "int \<Rightarrow> string" where
  "weekday_name w =
     [''Monday'', ''Tuesday'', ''Wednesday'', ''Thursday'', ''Friday'', ''Saturday'', ''Sunday''] ! nat w"

definition month_name :: "int \<Rightarrow> string" where
  "month_name m =
     [''January'', ''February'', ''March'', ''April'', ''May'', ''June'', ''July'', ''August'',
      ''September'', ''October'', ''November'', ''December''] ! nat (m - 1)"

definition zero_pad :: "nat \<Rightarrow> string \<Rightarrow> string" where
  "zero_pad n s = replicate (n - length s) (CHR ''0'') @ s"

text \<open>\<^verbatim>\<open>date_obj.strftime("%A %d %B %Y")\<close>.\<close>

definition strftime_A_d_B_Y :: "date \<Rightarrow> string" where
  "strftime_A_d_B_Y dt =
     (case dt of
        Date y m d \<Rightarrow>
          weekday_name (weekday dt) @ '' '' @ zero_pad 2 (int_digits d) @ '' ''
          @ month_name m @ '' '' @ zero_pad 4 (int_digits y))"

text \<open>\<^verbatim>\<open>fromisoformat\<close> raises \<^verbatim>\<open>TypeError\<close> for an argument that is not a string.\<close>

definition convert_date :: "pyval \<Rightarrow> exn + string" where
  "convert_date iso_string =
     (case iso_string of
        PStr s \<Rightarrow> exn_bind (py_fromisoformat s) (\<lambda>date_obj. Inr (strftime_A_d_B_Y date_obj))
      | _ \<Rightarrow> Inl TypeError)"

text \<open>
  A string in the calendar-date form \<^verbatim>\<open>YYYY-MM-DD\<close>, as the specification words it: ten
  characters, digits around two hyphens. Its fields are the year, the month and the day,
  and it is a valid ISO date when they name a day of the calendar.
\<close>

definition iso_date_fields :: "string \<Rightarrow> (int \<times> int \<times> int) option" where
  "iso_date_fields s =
     (if length s = 10 \<and> list_all is_digit (take 4 s) \<and> s ! 4 = CHR ''-''
         \<and> list_all is_digit (take 2 (drop 5 s)) \<and> s ! 7 = CHR ''-''
         \<and> list_all is_digit (drop 8 s)
      then Some (digits_val (take 4 s), digits_val (take 2 (drop 5 s)), digits_val (drop 8 s))
      else None)"

definition is_iso_calendar_date :: "string \<Rightarrow> bool" where
  "is_iso_calendar_date s =
     (case iso_date_fields s of Some (y, m, d) \<Rightarrow> valid_date y m d | None \<Rightarrow> False)"

section \<open>Aggregators\<close>

text \<open>
  \<^verbatim>\<open>sum(float(value) for value in weather_data)\<close>: the start value is the integer 0, and the
  floats are added from left to right. \<^verbatim>\<open>total / len(weather_data)\<close> divides an integer or a
  float by an integer; a list length always converts to a float.
\<close>

definition py_sum :: "pyfloat list \<Rightarrow> pyval" where
  "py_sum fs = (if fs = [] then PInt 0 else PFloat (foldl fadd (Fin 0 0) fs))"

definition py_truediv :: "pyval \<Rightarrow> nat \<Rightarrow> exn + pyfloat" where
  "py_truediv tot n =
     (case tot of
        PInt a \<Rightarrow>
          if n = 0 then Inl ZeroDivisionError
          else (let r = fl_frac (a < 0) \<bar>a\<bar> (int n) in if is_inf r then Inl OverflowError else Inr r)
      | PFloat t \<Rightarrow> fdiv t (fl_frac False (int n) 1)
      | PStr s \<Rightarrow> Inl TypeError)"

definition calculate_mean_body :: "pyval list \<Rightarrow> exn + pyfloat" where
  "calculate_mean_body weather_data =
     exn_bind (exn_map py_float weather_data) (\<lambda>fs.
     py_truediv (py_sum fs) (length weather_data))"

text \<open>The \<^verbatim>\<open>try\<close> statement of \<^verbatim>\<open>calculate_mean\<close> with its two handlers.\<close>

definition calculate_mean :: "pyval list \<Rightarrow> exn + pyval" where
  "calculate_mean weather_data =
     (case calculate_mean_body weather_data of
        Inr mean \<Rightarrow> Inr (PFloat mean)
      | Inl ZeroDivisionError \<Rightarrow> Inr (PFloat (Fin 0 0))
      | Inl ValueError \<Rightarrow> Inr (PStr ''Cannot divide by zero'')
      | Inl e \<Rightarrow> Inl e)"

text \<open>
  A float object is a pair of its identity and its value: \<^verbatim>\<open>list.index\<close> compares with
  \<^verbatim>\<open>is\<close> before \<^verbatim>\<open>==\<close>, which matters for a NaN. The floats of \<^verbatim>\<open>float_data\<close> are distinct
  objects, identified by their positions.
\<close>

type_synonym float_obj = "nat \<times> pyfloat"

definition objects :: "pyfloat list \<Rightarrow> float_obj list" where
  "objects fs = zip [0..<length fs] fs"

text \<open>\<^verbatim>\<open>min(xs)\<close> keeps the first item and replaces it by a later item that is \<^verbatim>\<open><\<close> it.\<close>

definition py_min :: "float_obj list \<Rightarrow> float_obj" where
  "py_min xs = fold (\<lambda>item best. if flt (snd item) (snd best) then item else best) (tl xs) (hd xs)"

definition py_max :: "float_obj list \<Rightarrow> float_obj" where
  "py_max xs = fold (\<lambda>item best. if flt (snd best) (snd item) then item else best) (tl xs) (hd xs)"

definition obj_eq :: "float_obj \<Rightarrow> float_obj \<Rightarrow> bool" where
  "obj_eq a b = (fst a = fst b \<or> feq (snd a) (snd b))"

fun py_index :: "float_obj list \<Rightarrow> float_obj \<Rightarrow> exn + nat" where
  "py_index [] x = Inl ValueError"
| "py_index (y # ys) x =
     (if obj_eq y x then Inr 0 else (case py_index ys x of Inl e \<Rightarrow> Inl e | Inr k \<Rightarrow> Inr (Suc k)))"

text \<open>The result \<^verbatim>\<open>()\<close> is \<open>None\<close>, a pair \<^verbatim>\<open>(value, index)\<close> is \<open>Some\<close>.\<close>

definition find_min :: "pyval list \<Rightarrow> exn + (pyfloat \<times> int) option" where
  "find_min weather_data =
     (if weather_data = [] then Inr None
      else
        exn_bind (exn_map py_float weather_data) (\<lambda>float_data.
        let min_value = py_min (objects float_data) in
        exn_bind (py_index (rev (objects float_data)) min_value) (\<lambda>k.
        Inr (Some (snd min_value, int (length float_data) - 1 - int k)))))"

definition find_max :: "pyval list \<Rightarrow> exn + (pyfloat \<times> int) option" where
  "find_max weather_data =
     (if weather_data = [] then Inr None
      else
        exn_bind (exn_map py_float weather_data) (\<lambda>float_data.
        let max_value = py_max (objects float_data) in
        exn_bind (py_index (rev (objects float_data)) max_value) (\<lambda>k.
        Inr (Some (snd max_value, int (length float_data) - 1 - int k)))))"

section \<open>Summary generators\<close>

definition newline :: string where
  "newline = [CHR 0x0A]"

text \<open>\<^verbatim>\<open>[float(row[i]) for row in weather_data]\<close>.\<close>

definition column_floats :: "int \<Rightarrow> pyval list list \<Rightarrow> exn + pyfloat list" where
  "column_floats i weather_data =
     exn_map (\<lambda>row. exn_bind (py_getitem row i) py_float) weather_data"

text \<open>Unpacking \<^verbatim>\<open>value, index = ...\<close> raises \<^verbatim>\<open>ValueError\<close> on the empty tuple.\<close>

definition unpack_pair :: "(pyfloat \<times> int) option \<Rightarrow> exn + pyfloat \<times> int" where
  "unpack_pair r = (case r of None \<Rightarrow> Inl ValueError | Some p \<Rightarrow> Inr p)"

definition generate_summary :: "pyval list list \<Rightarrow> exn + string" where
  "generate_summary weather_data =
     (if weather_data = [] then Inr []
      else
        exn_bind (column_floats 1 weather_data) (\<lambda>min_temps.
        exn_bind (column_floats 2 weather_data) (\<lambda>max_temps.
        exn_bind (exn_bind (find_min (map PFloat min_temps)) unpack_pair) (\<lambda>(overall_min_temp, min_index).
        exn_bind (convert_f_to_c (PFloat overall_min_temp)) (\<lambda>min_temp_celsius.
        let min_temp_formatted = format_temperature (PFloat min_temp_celsius) in
        exn_bind (exn_bind (exn_bind (py_getitem weather_data min_index) (\<lambda>row. py_getitem row 0))
                    convert_date) (\<lambda>min_date_formatted.
        exn_bind (exn_bind (find_max (map PFloat max_temps)) unpack_pair) (\<lambda>(overall_max_temp, max_index).
        exn_bind (convert_f_to_c (PFloat overall_max_temp)) (\<lambda>max_temp_celsius.
        let max_temp_formatted = format_temperature (PFloat max_temp_celsius) in
        exn_bind (exn_bind (exn_bind (py_getitem weather_data max_index) (\<lambda>row. py_getitem row 0))
                    convert_date) (\<lambda>max_date_formatted.
        exn_bind (calculate_mean (map PFloat min_temps)) (\<lambda>avg_low.
        exn_bind (calculate_mean (map PFloat max_temps)) (\<lambda>avg_high.
        exn_bind (convert_f_to_c avg_low) (\<lambda>avg_low_celsius.
        exn_bind (convert_f_to_c avg_high) (\<lambda>avg_high_celsius.
        let avg_low_formatted = format_temperature (PFloat avg_low_celsius);
            avg_high_formatted = format_temperature (PFloat avg_high_celsius);
            num_days = int (length weather_data)
        in Inr (int_str num_days @ '' Day Overview'' @ newline
                @ ''  The lowest temperature will be '' @ min_temp_formatted
                @ '', and will occur on '' @ min_date_formatted @ ''.'' @ newline
                @ ''  The highest temperature will be '' @ max_temp_formatted
                @ '', and will occur on '' @ max_date_formatted @ ''.'' @ newline
                @ ''  The average low this week is '' @ avg_low_formatted @ ''.'' @ newline
                @ ''  The average high this week is '' @ avg_high_formatted @ ''.'' @ newline))))))))))))))"

text \<open>The body of the loop of \<^verbatim>\<open>generate_daily_summary\<close> for one row.\<close>

definition day_summary :: "pyval list \<Rightarrow> exn + string" where
  "day_summary row =
     exn_bind (py_getitem row 0) (\<lambda>date_str.
     exn_bind (py_getitem row 1) (\<lambda>min_temp.
     exn_bind (py_getitem row 2) (\<lambda>max_temp.
     exn_bind (convert_date date_str) (\<lambda>formatted_date.
     exn_bind (convert_f_to_c min_temp) (\<lambda>min_temp_celsius.
     exn_bind (convert_f_to_c max_temp) (\<lambda>max_temp_celsius.
     let min_temp_formatted = format_temperature (PFloat min_temp_celsius);
         max_temp_formatted = format_temperature (PFloat max_temp_celsius)
     in Inr (''---- '' @ formatted_date @ '' ----'' @ newline
             @ ''  Minimum Temperature: '' @ min_temp_formatted @ newline
             @ ''  Maximum Temperature: '' @ max_temp_formatted @ newline)))))))"

text \<open>\<^verbatim>\<open>sep.join(xs)\<close>.\<close>

fun py_join :: "string \<Rightarrow> string list \<Rightarrow> string" where
  "py_join sep [] = []"
| "py_join sep [x] = x"
| "py_join sep (x # y # ys) = x @ sep @ py_join sep (y # ys)"

definition generate_daily_summary :: "pyval list list \<Rightarrow> exn + string" where
  "generate_daily_summary weather_data =
     exn_bind (exn_map day_summary weather_data) (\<lambda>summary_lines.
     Inr (py_join newline summary_lines @ newline))"

text \<open>
  The specification's wording of the end of the daily summary: the string ends with a
  newline, and the character before that newline, if there is one, is not a newline.
\<close>

definition single_trailing_newline :: "string \<Rightarrow> bool" where
  "single_trailing_newline s =
     (s \<noteq> [] \<and> last s = CHR 0x0A \<and> (butlast s = [] \<or> last (butlast s) \<noteq> CHR 0x0A))"

text \<open>
  The specification's wording of the conversion, for an integer temperature \<open>v\<close>: the exact
  value \<open>(v - 32) * 5 / 9\<close> is \<open>50 * (v - 32) / 9\<close> tenths; it is rounded to the nearest
  whole number of tenths (ties to even), and the result is the float nearest to that
  decimal.
\<close>

definition spec_convert_f_to_c :: "int \<Rightarrow> pyfloat" where
  "spec_convert_f_to_c v = fl_frac (v < 32) (div_half_even (50 * \<bar>v - 32\<bar>) 9) 10"

section \<open>The CSV loader: what is kept and how it is converted\<close>

lemma fold_append_nth:
  "fold (\<lambda>i acc. acc @ [f (row ! i)]) is acc = acc @ map (\<lambda>i. f (row ! i)) is"
  by (induction "is" arbitrary: acc) simp_all

lemma tl_as_nth: "map (\<lambda>i. f (row ! i)) [Suc 0..<length row] = map f (tl row)"
  by (rule nth_equalityI) (auto simp: nth_tl)

lemma process_row_eq:
  "process_row row = PStr (row ! 0) # map convert_field (tl row)"
  by (simp add: process_row_def fold_append_nth tl_as_nth)

lemma fold_loader_step:
  "fold loader_step rows (hs, data) =
     (hs \<or> (\<exists>r\<in>set rows. r \<noteq> []),
      data @ map process_row (drop (if hs then 0 else 1) (filter (\<lambda>row. row \<noteq> []) rows)))"
  by (induction rows arbitrary: hs data) (auto simp: loader_step_def)

lemma read_rows_eq:
  "read_rows rows = map process_row (drop 1 (filter (\<lambda>row. row \<noteq> []) rows))"
  by (simp add: read_rows_def fold_loader_step)

lemma load_data_rows:
  "fs csv_file = CsvFile rows err \<Longrightarrow> fst (load_data_from_csv fs csv_file) = read_rows rows"
  by (simp add: load_data_from_csv_def split: option.splits)

text \<open>
  C8. When the file does not exist, the loader prints the error message and returns the
  empty dataset; no exception reaches the caller.
\<close>

theorem load_missing_file:
  "fs csv_file = NoSuchFile \<Longrightarrow>
   load_data_from_csv fs csv_file =
     ([], [''Error: The file '' @ [CHR 0x27] @ csv_file @ [CHR 0x27] @ '' does not exist.''])"
  by (simp add: load_data_from_csv_def)

theorem load_missing_file_witness:
  "(\<lambda>p. NoSuchFile) ''weather.csv'' = NoSuchFile \<and>
   load_data_from_csv (\<lambda>p. NoSuchFile) ''weather.csv'' =
     ([], [''Error: The file '' @ [CHR 0x27] @ ''weather.csv'' @ [CHR 0x27] @ '' does not exist.''])"
  using load_missing_file [of "\<lambda>p. NoSuchFile" "''weather.csv''"] by simp

text \<open>
  C9. The rows the loader returns are, in order, the non-empty rows after the header. In
  each of them field 0 is the string of the file, and every later field is the integer it
  parses as, or its original string when \<^verbatim>\<open>int\<close> refuses it, for a row of any length.
\<close>

theorem loader_row_conversion:
  assumes "fs csv_file = CsvFile rows err"
  shows "length (fst (load_data_from_csv fs csv_file)) = length (drop 1 (filter (\<lambda>row. row \<noteq> []) rows)) \<and>
    (\<forall>k < length (drop 1 (filter (\<lambda>row. row \<noteq> []) rows)).
       length (fst (load_data_from_csv fs csv_file) ! k) = length (drop 1 (filter (\<lambda>row. row \<noteq> []) rows) ! k) \<and>
       fst (load_data_from_csv fs csv_file) ! k ! 0 = PStr (drop 1 (filter (\<lambda>row. row \<noteq> []) rows) ! k ! 0) \<and>
       (\<forall>i. 1 \<le> i \<and> i < length (drop 1 (filter (\<lambda>row. row \<noteq> []) rows) ! k) \<longrightarrow>
          fst (load_data_from_csv fs csv_file) ! k ! i =
            (case py_int (drop 1 (filter (\<lambda>row. row \<noteq> []) rows) ! k ! i) of
               Some n \<Rightarrow> PInt n
             | None \<Rightarrow> PStr (drop 1 (filter (\<lambda>row. row \<noteq> []) rows) ! k ! i))))"
proof -
  define kept where "kept = drop 1 (filter (\<lambda>row. row \<noteq> []) rows)"
  have data: "fst (load_data_from_csv fs csv_file) = map process_row kept"
    using assms by (simp add: load_data_rows read_rows_eq kept_def)
  have nonempty: "r \<noteq> []" if "r \<in> set kept" for r
    using that in_set_dropD [of r 1 "filter (\<lambda>row. row \<noteq> []) rows"] by (auto simp: kept_def)
  have row: "length (process_row r) = length r \<and> process_row r ! 0 = PStr (r ! 0) \<and>
      (\<forall>i. 1 \<le> i \<and> i < length r \<longrightarrow>
         process_row r ! i = (case py_int (r ! i) of Some n \<Rightarrow> PInt n | None \<Rightarrow> PStr (r ! i)))"
    if "r \<noteq> []" for r
  proof (intro conjI allI impI)
    show "length (process_row r) = length r"
      using that by (cases r) (simp_all add: process_row_eq)
    show "process_row r ! 0 = PStr (r ! 0)"
      by (simp add: process_row_eq)
    fix i assume i: "1 \<le> i \<and> i < length r"
    then obtain j where j: "i = Suc j" by (cases i) auto
    with i have "process_row r ! i = convert_field (tl r ! j)"
      by (simp add: process_row_eq)
    also have "tl r ! j = r ! i"
      using i j by (simp add: nth_tl)
    finally show "process_row r ! i = (case py_int (r ! i) of Some n \<Rightarrow> PInt n | None \<Rightarrow> PStr (r ! i))"
      by (simp add: convert_field_def)
  qed
  have "length (map process_row kept) = length kept \<and>
    (\<forall>k < length kept.
       length (map process_row kept ! k) = length (kept ! k) \<and>
       map process_row kept ! k ! 0 = PStr (kept ! k ! 0) \<and>
       (\<forall>i. 1 \<le> i \<and> i < length (kept ! k) \<longrightarrow>
          map process_row kept ! k ! i =
            (case py_int (kept ! k ! i) of Some n \<Rightarrow> PInt n | None \<Rightarrow> PStr (kept ! k ! i))))"
    using row nonempty by (simp add: nth_mem)
  then show ?thesis
    unfolding data kept_def .
qed

theorem loader_row_conversion_witness:
  "length (fst (load_data_from_csv (\<lambda>p. CsvFile [[''date'', ''min'', ''max''], [''2021-07-02'', ''49'', ''n/a'', ''7'']] None) ''w.csv'')) = 1 \<and>
   length (fst (load_data_from_csv (\<lambda>p. CsvFile [[''date'', ''min'', ''max''], [''2021-07-02'', ''49'', ''n/a'', ''7'']] None) ''w.csv'') ! 0) = 4 \<and>
   fst (load_data_from_csv (\<lambda>p. CsvFile [[''date'', ''min'', ''max''], [''2021-07-02'', ''49'', ''n/a'', ''7'']] None) ''w.csv'') ! 0 ! 0 = PStr ''2021-07-02'' \<and>
   fst (load_data_from_csv (\<lambda>p. CsvFile [[''date'', ''min'', ''max''], [''2021-07-02'', ''49'', ''n/a'', ''7'']] None) ''w.csv'') ! 0 ! 1 = PInt 49 \<and>
   fst (load_data_from_csv (\<lambda>p. CsvFile [[''date'', ''min'', ''max''], [''2021-07-02'', ''49'', ''n/a'', ''7'']] None) ''w.csv'') ! 0 ! 2 = PStr ''n/a'' \<and>
   fst (load_data_from_csv (\<lambda>p. CsvFile [[''date'', ''min'', ''max''], [''2021-07-02'', ''49'', ''n/a'', ''7'']] None) ''w.csv'') ! 0 ! 3 = PInt 7"
proof -
  have p: "py_int ''49'' = Some 49" "py_int ''n/a'' = None" "py_int ''7'' = Some 7"
    by code_simp+
  show ?thesis
    using loader_row_conversion [of "\<lambda>p. CsvFile [[''date'', ''min'', ''max''], [''2021-07-02'', ''49'', ''n/a'', ''7'']] None"
        "''w.csv''" "[[''date'', ''min'', ''max''], [''2021-07-02'', ''49'', ''n/a'', ''7'']]" None]
    by (simp add: p)
qed

text \<open>
  C4 (amended). The header the loader skips is the first non-empty row, whatever it holds:
  empty rows are dropped before the header test. It is the first physical row exactly when
  that row is not empty, and then the loader agrees with the specification's wording.
\<close>

theorem loader_header_is_first_nonempty_row:
  assumes "fs csv_file = CsvFile rows err"
  shows "fst (load_data_from_csv fs csv_file) = map process_row (drop 1 (filter (\<lambda>row. row \<noteq> []) rows)) \<and>
         ((rows = [] \<or> hd rows \<noteq> []) \<longrightarrow> fst (load_data_from_csv fs csv_file) = spec_read_rows rows)"
proof -
  have "filter (\<lambda>row. row \<noteq> []) (drop 1 rows) = drop 1 (filter (\<lambda>row. row \<noteq> []) rows)"
    if "rows = [] \<or> hd rows \<noteq> []"
    using that by (cases rows) auto
  then show ?thesis
    using assms by (auto simp: load_data_rows read_rows_eq spec_read_rows_def)
qed


theorem loader_header_witness:
  "fst (load_data_from_csv (\<lambda>p. CsvFile [[''date'', ''min''], [], [''2021-07-02'', ''49'']] None) ''w.csv'')
     = spec_read_rows [[''date'', ''min''], [], [''2021-07-02'', ''49'']]"
proof -
  have "([[''date'', ''min''], [], [''2021-07-02'', ''49'']] = [] \<or> hd [[''date'', ''min''], [], [''2021-07-02'', ''49'']] \<noteq> []) \<longrightarrow>
    fst (load_data_from_csv (\<lambda>p. CsvFile [[''date'', ''min''], [], [''2021-07-02'', ''49'']] None) ''w.csv'')
      = spec_read_rows [[''date'', ''min''], [], [''2021-07-02'', ''49'']]"
    by (rule conjunct2, rule loader_header_is_first_nonempty_row) simp
  then show ?thesis by simp
qed

theorem loader_header_counterexample:
  "fst (load_data_from_csv (\<lambda>p. CsvFile [[], [''date'', ''min'', ''max''], [''2021-07-02'', ''49'', ''77'']] None) ''w.csv'')
     = [[PStr ''2021-07-02'', PInt 49, PInt 77]] \<and>
   spec_read_rows [[], [''date'', ''min'', ''max''], [''2021-07-02'', ''49'', ''77'']]
     = [[PStr ''date'', PStr ''min'', PStr ''max''], [PStr ''2021-07-02'', PInt 49, PInt 77]]"
  by code_simp

section \<open>The order of floats\<close>

lemma dyadic_scale:
  fixes m :: int
  assumes "e \<le> e1"
  shows "(of_int m * 2 powi e1 :: rat) = of_int (m * 2 ^ nat (e1 - e)) * 2 powi e"
proof -
  have "(2::rat) powi e1 = 2 powi ((e1 - e) + e)"
    by simp
  also have "\<dots> = 2 powi (e1 - e) * 2 powi e"
    by (rule power_int_add) simp
  also have "(2::rat) powi (e1 - e) = 2 ^ nat (e1 - e)"
    using assms by (simp add: power_int_def)
  finally show ?thesis
    by (simp add: mult.assoc)
qed

lemma dyadic_less_iff:
  "(m1 * 2 ^ nat (e1 - min e1 e2) < m2 * 2 ^ nat (e2 - min e1 e2)) \<longleftrightarrow>
   (of_int m1 * 2 powi e1 < (of_int m2 * 2 powi e2 :: rat))"
proof -
  have pos: "(0::rat) < 2 powi min e1 e2" by (simp add: zero_less_power_int)
  show ?thesis
    unfolding dyadic_scale [of "min e1 e2" e1 m1, OF min.cobounded1]
      dyadic_scale [of "min e1 e2" e2 m2, OF min.cobounded2]
    using pos by (simp add: mult_less_cancel_right_pos del: of_int_mult of_int_power)
qed

lemma dyadic_eq_iff:
  "(m1 * 2 ^ nat (e1 - min e1 e2) = m2 * 2 ^ nat (e2 - min e1 e2)) \<longleftrightarrow>
   (of_int m1 * 2 powi e1 = (of_int m2 * 2 powi e2 :: rat))"
proof -
  have pos: "(2::rat) powi min e1 e2 \<noteq> 0" by simp
  show ?thesis
    unfolding dyadic_scale [of "min e1 e2" e1 m1, OF min.cobounded1]
      dyadic_scale [of "min e1 e2" e2 m2, OF min.cobounded2]
    using pos by (simp del: of_int_mult of_int_power)
qed

lemma flt_fkey: "a \<noteq> NaN \<Longrightarrow> b \<noteq> NaN \<Longrightarrow> flt a b \<longleftrightarrow> fkey a < fkey b"
  by (cases "signed_mag a"; cases "signed_mag b")
     (auto simp: flt_def fkey_def fval_def less_prod_def Let_def dyadic_less_iff)

lemma feq_fkey: "a \<noteq> NaN \<Longrightarrow> b \<noteq> NaN \<Longrightarrow> feq a b \<longleftrightarrow> fkey a = fkey b"
  by (cases "signed_mag a"; cases "signed_mag b")
     (simp add: feq_def fkey_def fval_def Let_def dyadic_eq_iff)

lemma fle_fkey: "a \<noteq> NaN \<Longrightarrow> b \<noteq> NaN \<Longrightarrow> fle a b \<longleftrightarrow> fkey a \<le> fkey b"
  by (auto simp: fle_def flt_fkey feq_fkey)

section \<open>Minimum and maximum with the last index\<close>

lemma exn_map_length: "exn_map f xs = Inr ys \<Longrightarrow> length ys = length xs"
  by (induction xs arbitrary: ys) (auto split: sum.splits)

lemma objects_length [simp]: "length (objects fs) = length fs"
  by (simp add: objects_def)

lemma objects_nth [simp]: "i < length fs \<Longrightarrow> objects fs ! i = (i, fs ! i)"
  by (simp add: objects_def)

lemma objects_mem: "x \<in> set (objects fs) \<longleftrightarrow> fst x < length fs \<and> snd x = fs ! fst x"
proof (cases x)
  case (Pair i f)
  have "(i, f) \<in> set (zip [0..<length fs] fs) \<longleftrightarrow> i < length fs \<and> f = fs ! i"
    by (auto simp: in_set_zip intro: exI [of _ i])
  with Pair show ?thesis by (simp add: objects_def)
qed

lemma fold_min_mem:
  "fold (\<lambda>item best. if flt (snd item) (snd best) then item else best) xs b \<in> set (b # xs)"
  by (induction xs arbitrary: b) (simp, force)

lemma fold_max_mem:
  "fold (\<lambda>item best. if flt (snd best) (snd item) then item else best) xs b \<in> set (b # xs)"
  by (induction xs arbitrary: b) (simp, force)

lemma fold_min_least:
  assumes "\<forall>x \<in> set (b # xs). snd x \<noteq> NaN"
  shows "\<forall>x \<in> set (b # xs).
    fkey (snd (fold (\<lambda>item best. if flt (snd item) (snd best) then item else best) xs b)) \<le> fkey (snd x)"
  using assms
proof (induction xs arbitrary: b)
  case Nil
  then show ?case by simp
next
  case (Cons y ys)
  let ?b = "if flt (snd y) (snd b) then y else b"
  have nn: "\<forall>x \<in> set (?b # ys). snd x \<noteq> NaN"
    using Cons.prems by auto
  have le: "fkey (snd ?b) \<le> fkey (snd b)" "fkey (snd ?b) \<le> fkey (snd y)"
    using Cons.prems by (auto simp: flt_fkey)
  from Cons.IH [OF nn] have ih: "\<forall>x \<in> set (?b # ys).
      fkey (snd (fold (\<lambda>item best. if flt (snd item) (snd best) then item else best) ys ?b)) \<le> fkey (snd x)" .
  then have "fkey (snd (fold (\<lambda>item best. if flt (snd item) (snd best) then item else best) ys ?b)) \<le> fkey (snd ?b)"
    by simp
  with le ih show ?case
    by (auto intro: order_trans simp del: fkey_def)
qed

lemma fold_max_greatest:
  assumes "\<forall>x \<in> set (b # xs). snd x \<noteq> NaN"
  shows "\<forall>x \<in> set (b # xs).
    fkey (snd x) \<le> fkey (snd (fold (\<lambda>item best. if flt (snd best) (snd item) then item else best) xs b))"
  using assms
proof (induction xs arbitrary: b)
  case Nil
  then show ?case by simp
next
  case (Cons y ys)
  let ?b = "if flt (snd b) (snd y) then y else b"
  have nn: "\<forall>x \<in> set (?b # ys). snd x \<noteq> NaN"
    using Cons.prems by auto
  have le: "fkey (snd b) \<le> fkey (snd ?b)" "fkey (snd y) \<le> fkey (snd ?b)"
    using Cons.prems by (auto simp: flt_fkey)
  from Cons.IH [OF nn] have ih: "\<forall>x \<in> set (?b # ys).
      fkey (snd x) \<le> fkey (snd (fold (\<lambda>item best. if flt (snd best) (snd item) then item else best) ys ?b))" .
  then have "fkey (snd ?b) \<le> fkey (snd (fold (\<lambda>item best. if flt (snd best) (snd item) then item else best) ys ?b))"
    by simp
  with le ih show ?case
    by (auto intro: order_trans)
qed

lemma py_min_mem: "xs \<noteq> [] \<Longrightarrow> py_min xs \<in> set xs"
  using fold_min_mem [of "tl xs" "hd xs"] by (cases xs) (simp_all add: py_min_def)

lemma py_max_mem: "xs \<noteq> [] \<Longrightarrow> py_max xs \<in> set xs"
  using fold_max_mem [of "tl xs" "hd xs"] by (cases xs) (simp_all add: py_max_def)

lemma py_min_least:
  "xs \<noteq> [] \<Longrightarrow> \<forall>x \<in> set xs. snd x \<noteq> NaN \<Longrightarrow> x \<in> set xs \<Longrightarrow> fkey (snd (py_min xs)) \<le> fkey (snd x)"
  using fold_min_least [of "hd xs" "tl xs"] by (cases xs) (auto simp: py_min_def)

lemma py_max_greatest:
  "xs \<noteq> [] \<Longrightarrow> \<forall>x \<in> set xs. snd x \<noteq> NaN \<Longrightarrow> x \<in> set xs \<Longrightarrow> fkey (snd x) \<le> fkey (snd (py_max xs))"
  using fold_max_greatest [of "hd xs" "tl xs"] by (cases xs) (auto simp: py_max_def)

lemma py_index_first:
  assumes "\<exists>y \<in> set ys. obj_eq y x"
  shows "\<exists>k. py_index ys x = Inr k \<and> k < length ys \<and> obj_eq (ys ! k) x \<and> (\<forall>j<k. \<not> obj_eq (ys ! j) x)"
  using assms
proof (induction ys)
  case Nil
  then show ?case by simp
next
  case (Cons y ys)
  show ?case
  proof (cases "obj_eq y x")
    case True
    then show ?thesis by simp
  next
    case False
    with Cons.prems have "\<exists>y \<in> set ys. obj_eq y x" by simp
    from Cons.IH [OF this] obtain k where k: "py_index ys x = Inr k" "k < length ys"
      "obj_eq (ys ! k) x" "\<forall>j<k. \<not> obj_eq (ys ! j) x" by blast
    have "\<forall>j<Suc k. \<not> obj_eq ((y # ys) ! j) x"
      using False k(4) by (auto simp: nth_Cons')
    with False k show ?thesis by simp
  qed
qed

text \<open>The index computed from the reversed list is the last position that compares equal.\<close>

lemma last_index_of:
  assumes "x \<in> set (objects fs)"
  shows "\<exists>i. exn_bind (py_index (rev (objects fs)) x) (\<lambda>k. Inr (Some (snd x, int (length fs) - 1 - int k)))
              = Inr (Some (snd x, int i)) \<and>
             i < length fs \<and> obj_eq (objects fs ! i) x \<and>
             (\<forall>j. i < j \<and> j < length fs \<longrightarrow> \<not> obj_eq (objects fs ! j) x)"
proof -
  have "\<exists>y \<in> set (rev (objects fs)). obj_eq y x"
    using assms by (auto simp: obj_eq_def)
  from py_index_first [OF this] obtain k where k: "py_index (rev (objects fs)) x = Inr k"
    "k < length fs" "obj_eq (rev (objects fs) ! k) x" "\<forall>j<k. \<not> obj_eq (rev (objects fs) ! j) x"
    by auto
  let ?i = "length fs - Suc k"
  have i: "?i < length fs" using k(2) by simp
  have "int (length fs) - 1 - int k = int ?i" using k(2) by simp
  then have res: "exn_bind (py_index (rev (objects fs)) x) (\<lambda>k. Inr (Some (snd x, int (length fs) - 1 - int k)))
      = Inr (Some (snd x, int ?i))"
    by (simp add: k(1) exn_bind_def)
  have at: "obj_eq (objects fs ! ?i) x"
    using k(2,3) by (simp add: rev_nth)
  have later: "\<not> obj_eq (objects fs ! j) x" if "?i < j" "j < length fs" for j
  proof -
    have "length fs - Suc j < k" using that k(2) by arith
    with k(4) have "\<not> obj_eq (rev (objects fs) ! (length fs - Suc j)) x" by blast
    moreover have "rev (objects fs) ! (length fs - Suc j) = objects fs ! j"
      using that by (simp add: rev_nth Suc_diff_Suc)
    ultimately show ?thesis by simp
  qed
  from res i at later show ?thesis by blast
qed

lemma obj_eq_feq:
  assumes "x \<in> set (objects fs)" "j < length fs" "NaN \<notin> set fs"
  shows "obj_eq (objects fs ! j) x \<longleftrightarrow> feq (fs ! j) (snd x)"
proof -
  have x: "fst x < length fs" "snd x = fs ! fst x"
    using assms(1) by (simp_all add: objects_mem)
  have "fs ! j \<noteq> NaN" "snd x \<noteq> NaN"
    using assms x by (metis nth_mem)+
  then show ?thesis
    using assms(2) x by (auto simp: obj_eq_def feq_fkey)
qed

lemma find_min_unfold:
  "weather_data \<noteq> [] \<Longrightarrow> exn_map py_float weather_data = Inr float_data \<Longrightarrow>
   find_min weather_data =
     exn_bind (py_index (rev (objects float_data)) (py_min (objects float_data)))
       (\<lambda>k. Inr (Some (snd (py_min (objects float_data)), int (length float_data) - 1 - int k)))"
  by (simp add: find_min_def exn_bind_def Let_def)

lemma find_max_unfold:
  "weather_data \<noteq> [] \<Longrightarrow> exn_map py_float weather_data = Inr float_data \<Longrightarrow>
   find_max weather_data =
     exn_bind (py_index (rev (objects float_data)) (py_max (objects float_data)))
       (\<lambda>k. Inr (Some (snd (py_max (objects float_data)), int (length float_data) - 1 - int k)))"
  by (simp add: find_max_def exn_bind_def Let_def)

lemma extremum_position:
  assumes mem: "x \<in> set (objects fs)" and nan: "NaN \<notin> set fs"
  shows "\<exists>i. exn_bind (py_index (rev (objects fs)) x) (\<lambda>k. Inr (Some (snd x, int (length fs) - 1 - int k)))
              = Inr (Some (snd x, int i)) \<and>
             i < length fs \<and> snd x \<in> set fs \<and> feq (fs ! i) (snd x) \<and>
             (\<forall>j. i < j \<and> j < length fs \<longrightarrow> \<not> feq (fs ! j) (snd x))"
proof -
  from last_index_of [OF mem] obtain i where i:
    "exn_bind (py_index (rev (objects fs)) x) (\<lambda>k. Inr (Some (snd x, int (length fs) - 1 - int k)))
       = Inr (Some (snd x, int i))"
    "i < length fs" "obj_eq (objects fs ! i) x"
    "\<forall>j. i < j \<and> j < length fs \<longrightarrow> \<not> obj_eq (objects fs ! j) x"
    by blast
  have "snd x \<in> set fs"
    using mem by (simp add: objects_mem)
  moreover have "feq (fs ! i) (snd x)"
    using i(2,3) obj_eq_feq [OF mem _ nan] by simp
  moreover have "\<forall>j. i < j \<and> j < length fs \<longrightarrow> \<not> feq (fs ! j) (snd x)"
    using i(4) obj_eq_feq [OF mem _ nan] by simp
  ultimately show ?thesis
    using i(1,2) by blast
qed

text \<open>
  C1 (amended). For a non-empty list whose elements all convert to floats none of which is a
  NaN, \<^verbatim>\<open>find_min\<close> returns a pair \<open>(v, i)\<close>: \<open>v\<close> is an element of the converted list and is
  \<open>\<le>\<close> every element, position \<open>i\<close> holds a value equal to \<open>v\<close>, and no later position does,
  so \<open>i\<close> is the last occurrence of the minimum. \<^verbatim>\<open>find_max\<close> is symmetric. An instance is
  \<^verbatim>\<open>find_min([1, 2, 1]) == (1.0, 2)\<close>. A NaN in the list has to be excluded: the string
  \<^verbatim>\<open>'nan'\<close> converts to a float, and \<^verbatim>\<open>find_min(['nan', 1])\<close> is \<^verbatim>\<open>(nan, 0)\<close>, although
  \<^verbatim>\<open>nan <= 1.0\<close> is false.
\<close>

theorem find_min_max_last_occurrence:
  assumes "weather_data \<noteq> []"
    and "exn_map py_float weather_data = Inr float_data"
    and "NaN \<notin> set float_data"
  shows "(\<exists>v i. find_min weather_data = Inr (Some (v, int i)) \<and> i < length float_data \<and>
            v \<in> set float_data \<and> (\<forall>x \<in> set float_data. fle v x) \<and>
            feq (float_data ! i) v \<and>
            (\<forall>j. i < j \<and> j < length float_data \<longrightarrow> \<not> feq (float_data ! j) v)) \<and>
         (\<exists>v i. find_max weather_data = Inr (Some (v, int i)) \<and> i < length float_data \<and>
            v \<in> set float_data \<and> (\<forall>x \<in> set float_data. fle x v) \<and>
            feq (float_data ! i) v \<and>
            (\<forall>j. i < j \<and> j < length float_data \<longrightarrow> \<not> feq (float_data ! j) v))"
proof -
  let ?objs = "objects float_data"
  have "length float_data = length weather_data"
    using assms(2) by (rule exn_map_length)
  with assms(1) have ne: "?objs \<noteq> []"
    by (auto simp: objects_def)
  have nn: "\<forall>x \<in> set ?objs. snd x \<noteq> NaN"
    using assms(3) nth_mem by (fastforce simp: objects_mem)
  have obj: "\<exists>ob \<in> set ?objs. snd ob = x" if "x \<in> set float_data" for x
  proof -
    from that obtain i where "i < length float_data" "float_data ! i = x"
      by (auto simp: in_set_conv_nth)
    then have "(i, x) \<in> set ?objs" by (simp add: objects_mem)
    then show ?thesis by force
  qed
  have low: "\<forall>x \<in> set float_data. fle (snd (py_min ?objs)) x"
  proof
    fix x assume x: "x \<in> set float_data"
    from obj [OF x] obtain ob where o: "ob \<in> set ?objs" "snd ob = x" by blast
    have "fkey (snd (py_min ?objs)) \<le> fkey (snd ob)"
      using ne nn o(1) by (rule py_min_least)
    moreover have "snd (py_min ?objs) \<noteq> NaN" "x \<noteq> NaN"
      using nn py_min_mem [OF ne] x assms(3) by auto
    ultimately show "fle (snd (py_min ?objs)) x"
      using o(2) by (simp add: fle_fkey)
  qed
  have high: "\<forall>x \<in> set float_data. fle x (snd (py_max ?objs))"
  proof
    fix x assume x: "x \<in> set float_data"
    from obj [OF x] obtain ob where o: "ob \<in> set ?objs" "snd ob = x" by blast
    have "fkey (snd ob) \<le> fkey (snd (py_max ?objs))"
      using ne nn o(1) by (rule py_max_greatest)
    moreover have "snd (py_max ?objs) \<noteq> NaN" "x \<noteq> NaN"
      using nn py_max_mem [OF ne] x assms(3) by auto
    ultimately show "fle x (snd (py_max ?objs))"
      using o(2) by (simp add: fle_fkey)
  qed
  from extremum_position [OF py_min_mem [OF ne] assms(3)] low
  have "\<exists>v i. find_min weather_data = Inr (Some (v, int i)) \<and> i < length float_data \<and>
      v \<in> set float_data \<and> (\<forall>x \<in> set float_data. fle v x) \<and> feq (float_data ! i) v \<and>
      (\<forall>j. i < j \<and> j < length float_data \<longrightarrow> \<not> feq (float_data ! j) v)"
    unfolding find_min_unfold [OF assms(1,2)] by blast
  moreover
  from extremum_position [OF py_max_mem [OF ne] assms(3)] high
  have "\<exists>v i. find_max weather_data = Inr (Some (v, int i)) \<and> i < length float_data \<and>
      v \<in> set float_data \<and> (\<forall>x \<in> set float_data. fle x v) \<and> feq (float_data ! i) v \<and>
      (\<forall>j. i < j \<and> j < length float_data \<longrightarrow> \<not> feq (float_data ! j) v)"
    unfolding find_max_unfold [OF assms(1,2)] by blast
  ultimately show ?thesis by blast
qed

lemma floats_121: "exn_map py_float [PInt 1, PInt 2, PInt 1] = Inr [Fin 1 0, Fin 1 1, Fin 1 0]"
  by code_simp

lemma cmp_121:
  "fle (Fin 1 0) (Fin 1 1)" "\<not> fle (Fin 1 1) (Fin 1 0)" "feq (Fin 1 0) (Fin 1 0)" "\<not> feq (Fin 1 1) (Fin 1 0)"
  "feq (Fin 1 1) (Fin 1 1)" "\<not> feq (Fin 1 0) (Fin 1 1)"  "fle (Fin 1 0) (Fin 1 0)" "fle (Fin 1 1) (Fin 1 1)"
  by code_simp+

theorem find_min_max_witness:
  "find_min [PInt 1, PInt 2, PInt 1] = Inr (Some (Fin 1 0, 2)) \<and>
   find_max [PInt 1, PInt 2, PInt 1] = Inr (Some (Fin 1 1, 1))"
proof -
  have nan: "NaN \<notin> set [Fin 1 0, Fin 1 1, Fin 1 0]" by simp
  have ne: "[PInt 1, PInt 2, PInt 1] \<noteq> []" by simp
  note main = find_min_max_last_occurrence [OF ne floats_121 nan]
  from main obtain v i where m: "find_min [PInt 1, PInt 2, PInt 1] = Inr (Some (v, int i))"
    "i < 3" "v \<in> set [Fin 1 0, Fin 1 1, Fin 1 0]" "\<forall>x \<in> set [Fin 1 0, Fin 1 1, Fin 1 0]. fle v x"
    "\<forall>j. i < j \<and> j < 3 \<longrightarrow> \<not> feq ([Fin 1 0, Fin 1 1, Fin 1 0] ! j) v"
    by auto
  from m(3,4) have v: "v = Fin 1 0" using cmp_121 by auto
  have "i = 2"
  proof (rule ccontr)
    assume "i \<noteq> 2"
    with m(2) have "i < 2 \<and> (2::nat) < 3" by simp
    with m(5) have "\<not> feq ([Fin 1 0, Fin 1 1, Fin 1 0] ! 2) v" by blast
    then show False using v cmp_121 by simp
  qed
  with m(1) v have min: "find_min [PInt 1, PInt 2, PInt 1] = Inr (Some (Fin 1 0, 2))" by simp
  from main obtain w k where x: "find_max [PInt 1, PInt 2, PInt 1] = Inr (Some (w, int k))"
    "k < 3" "w \<in> set [Fin 1 0, Fin 1 1, Fin 1 0]" "\<forall>x \<in> set [Fin 1 0, Fin 1 1, Fin 1 0]. fle x w"
    "feq ([Fin 1 0, Fin 1 1, Fin 1 0] ! k) w"
    by auto
  from x(3,4) have w: "w = Fin 1 1" using cmp_121 by auto
  from x(2) have "k = 0 \<or> k = 1 \<or> k = 2" by auto
  with x(5) w have "k = 1" using cmp_121 by auto
  with x(1) w have "find_max [PInt 1, PInt 2, PInt 1] = Inr (Some (Fin 1 1, 1))" by simp
  with min show ?thesis by simp
qed

theorem find_min_nan_counterexample:
  "exn_map py_float [PStr ''nan'', PInt 1] = Inr [NaN, Fin 1 0] \<and>
   find_min [PStr ''nan'', PInt 1] = Inr (Some (NaN, 0)) \<and>
   \<not> fle NaN (Fin 1 0) \<and>
   find_max [PStr ''nan'', PInt 1] = Inr (Some (NaN, 0)) \<and>
   \<not> fle (Fin 1 0) NaN"
  by code_simp

section \<open>The mean\<close>

lemma norm_dyadic_nonzero: "n \<noteq> 0 \<Longrightarrow> fst (norm_dyadic n s) \<noteq> 0"
proof (induction n s rule: norm_dyadic.induct)
  case (1 m e)
  show ?case
  proof (cases "even m")
    case True
    with "1.prems" have "m div 2 \<noteq> 0" by presburger
    with "1.IH" "1.prems" True show ?thesis by (simp add: norm_dyadic.simps [of m e])
  next
    case False
    with "1.prems" show ?thesis by (simp add: norm_dyadic.simps [of m e])
  qed
qed

lemma div_half_even_ge: "0 < b \<Longrightarrow> a div b \<le> div_half_even a b"
  by (simp add: div_half_even_def Let_def)

lemma ilog2_frac_int:
  assumes "1 \<le> a"
  shows "0 \<le> ilog2_frac a 1 \<and> 2 ^ nat (ilog2_frac a 1) \<le> a"
proof -
  have pos: "0 < a" using assms by simp
  have b1: "bitlen 1 = 1" by (simp add: bitlen_alt_def)
  have "0 < bitlen a" using pos by (simp add: bitlen_alt_def)
  then have e: "0 \<le> bitlen a - 1" by simp
  have "2 ^ nat (bitlen a - 1) \<le> a"
    using bitlen_bounds [OF pos] by simp
  with e show ?thesis
    by (simp add: ilog2_frac_def b1 Let_def)
qed

lemma fl_frac_int_nonzero:
  assumes "1 \<le> a"
  shows "\<not> is_zero (fl_frac neg a 1)"
proof -
  define s where "s = ilog2_frac a 1 - 52"
  define n where "n = (if 0 \<le> s then div_half_even a (1 * 2 ^ nat s)
                       else div_half_even (a * 2 ^ nat (- s)) 1)"
  from ilog2_frac_int [OF assms] have L: "0 \<le> ilog2_frac a 1" "2 ^ nat (ilog2_frac a 1) \<le> a"
    by simp_all
  have smax: "max (ilog2_frac a 1) (- 1022) - 52 = s"
    using L(1) by (simp add: s_def)
  have n: "1 \<le> n"
  proof (cases "0 \<le> s")
    case True
    have "(2::int) ^ nat s \<le> 2 ^ nat (ilog2_frac a 1)"
      using L(1) True by (intro power_increasing) (auto simp: s_def)
    from this L(2) have "2 ^ nat s \<le> a" by (rule order_trans)
    then have "0 < a div 2 ^ nat s"
      by (simp add: pos_imp_zdiv_pos_iff)
    then have "1 \<le> a div 2 ^ nat s"
      by simp
    also have "\<dots> \<le> div_half_even a (2 ^ nat s)"
      by (rule div_half_even_ge) simp
    finally show ?thesis using True by (simp add: n_def)
  next
    case False
    have "(1::int) \<le> 2 ^ nat (- s)"
      by simp
    with assms have "1 * 1 \<le> a * 2 ^ nat (- s)"
      by (intro mult_mono) simp_all
    then have "1 \<le> a * 2 ^ nat (- s)"
      by simp
    then show ?thesis
      using False by (simp add: n_def div_half_even_def)
  qed
  obtain m e where me: "norm_dyadic n s = (m, e)" by force
  from n have "n \<noteq> 0" by simp
  from norm_dyadic_nonzero [OF this, of s] me have m: "m \<noteq> 0" by simp
  have "fl_frac neg a 1 =
      (if 2 ^ nat (1024 - s) \<le> n then (if neg then NegInf else PosInf)
       else if n = 0 then (if neg then NegZero else Fin 0 0)
       else (case norm_dyadic n s of (m, e) \<Rightarrow> Fin (if neg then - m else m) e))"
    using assms by (simp only: fl_frac_def smax Let_def n_def [symmetric]) simp
  with me m n show ?thesis
    by (cases "2 ^ nat (1024 - s) \<le> n") (simp_all split: if_splits)
qed

lemma exn_map_append_fail:
  assumes "\<forall>v \<in> set pre. \<exists>y. f v = Inr y" and "f bad = Inl e"
  shows "exn_map f (pre @ bad # post) = Inl e"
  using assms by (induction pre) (auto split: sum.splits)

lemma fdiv_total: "\<not> is_zero b \<Longrightarrow> \<exists>q. fdiv a b = Inr q"
  by (auto simp: fdiv_def Let_def split: prod.splits)

lemma calculate_mean_body_nonempty:
  assumes "weather_data \<noteq> []" and "exn_map py_float weather_data = Inr fs"
  shows "\<exists>q. fdiv (foldl fadd (Fin 0 0) fs) (float_lit (int (length weather_data))) = Inr q \<and>
             calculate_mean_body weather_data = Inr q"
proof -
  have len: "length fs = length weather_data"
    using assms(2) by (rule exn_map_length)
  with assms(1) have fs: "fs \<noteq> []" by auto
  have "1 \<le> int (length weather_data)"
    using assms(1) by (cases weather_data) simp_all
  then have nz: "\<not> is_zero (fl_frac False (int (length weather_data)) 1)"
    by (rule fl_frac_int_nonzero)
  have lit: "float_lit (int (length weather_data)) = fl_frac False (int (length weather_data)) 1"
    by (simp add: float_lit_def)
  obtain q where q: "fdiv (foldl fadd (Fin 0 0) fs) (fl_frac False (int (length weather_data)) 1) = Inr q"
    using fdiv_total [OF nz] by blast
  then have "calculate_mean_body weather_data = Inr q"
    using assms(2) fs by (simp add: calculate_mean_body_def exn_bind_def py_sum_def py_truediv_def)
  with q lit show ?thesis by simp
qed

text \<open>
  C7. \<^verbatim>\<open>calculate_mean([])\<close> is \<^verbatim>\<open>0.0\<close>, and for a non-empty list whose elements all convert
  the function returns the float sum of the converted elements, added from left to right,
  divided by the float of the element count; the division cannot fail.
\<close>

theorem calculate_mean_empty_and_sum:
  "calculate_mean [] = Inr (PFloat (Fin 0 0)) \<and>
   (weather_data \<noteq> [] \<and> exn_map py_float weather_data = Inr fs \<longrightarrow>
      (\<exists>q. fdiv (foldl fadd (Fin 0 0) fs) (float_lit (int (length weather_data))) = Inr q \<and>
           calculate_mean weather_data = Inr (PFloat q)))"
proof (intro conjI impI)
  show "calculate_mean [] = Inr (PFloat (Fin 0 0))"
    by (simp add: calculate_mean_def calculate_mean_body_def exn_bind_def py_sum_def py_truediv_def)
next
  assume "weather_data \<noteq> [] \<and> exn_map py_float weather_data = Inr fs"
  then obtain q where "fdiv (foldl fadd (Fin 0 0) fs) (float_lit (int (length weather_data))) = Inr q"
    "calculate_mean_body weather_data = Inr q"
    using calculate_mean_body_nonempty by blast
  then show "\<exists>q. fdiv (foldl fadd (Fin 0 0) fs) (float_lit (int (length weather_data))) = Inr q \<and>
           calculate_mean weather_data = Inr (PFloat q)"
    by (simp add: calculate_mean_def)
qed

lemma floats_123: "exn_map py_float [PInt 1, PInt 2, PInt 3] = Inr [Fin 1 0, Fin 1 1, Fin 3 0]"
  by code_simp

lemma mean_123:
  "fdiv (foldl fadd (Fin 0 0) [Fin 1 0, Fin 1 1, Fin 3 0]) (float_lit (int (length [PInt 1, PInt 2, PInt 3])))
     = Inr (Fin 1 1)"
  by code_simp

theorem calculate_mean_witness:
  "calculate_mean [] = Inr (PFloat (Fin 0 0)) \<and>
   calculate_mean [PInt 1, PInt 2, PInt 3] = Inr (PFloat (Fin 1 1))"
proof -
  have ne: "[PInt 1, PInt 2, PInt 3] \<noteq> []" by simp
  from calculate_mean_empty_and_sum [of "[PInt 1, PInt 2, PInt 3]" "[Fin 1 0, Fin 1 1, Fin 3 0]"] ne floats_123
  obtain q where q:
    "fdiv (foldl fadd (Fin 0 0) [Fin 1 0, Fin 1 1, Fin 3 0]) (float_lit (int (length [PInt 1, PInt 2, PInt 3]))) = Inr q"
    "calculate_mean [PInt 1, PInt 2, PInt 3] = Inr (PFloat q)"
    by blast
  from q(1) have "q = Fin 1 1"
    unfolding mean_123 by simp
  with q(2) calculate_mean_empty_and_sum [of "[PInt 1, PInt 2, PInt 3]" "[Fin 1 0, Fin 1 1, Fin 3 0]"]
  show ?thesis by simp
qed

text \<open>
  C2 (amended). What decides the result is the first element, in list order, whose
  conversion fails. When it is a string that \<^verbatim>\<open>float\<close> refuses (\<^verbatim>\<open>ValueError\<close>), the function
  returns the string \<^verbatim>\<open>"Cannot divide by zero"\<close>. When it is an integer too large for a float
  (\<^verbatim>\<open>OverflowError\<close>), no handler catches the exception and it reaches the caller. No other
  failure exists for an integer, a float or a string.
\<close>

theorem calculate_mean_first_failure:
  assumes "weather_data = pre @ bad # post"
    and "\<forall>v \<in> set pre. \<exists>f. py_float v = Inr f"
    and "py_float bad = Inl e"
  shows "(e = ValueError \<longrightarrow> calculate_mean weather_data = Inr (PStr ''Cannot divide by zero'')) \<and>
         (e = OverflowError \<longrightarrow> calculate_mean weather_data = Inl OverflowError) \<and>
         (e = ValueError \<or> e = OverflowError) \<and>
         (e = ValueError \<longleftrightarrow> (\<exists>s. bad = PStr s \<and> float_of_string s = None))"
proof -
  have "exn_map py_float weather_data = Inl e"
    unfolding assms(1) using assms(2,3) by (rule exn_map_append_fail)
  then have body: "calculate_mean_body weather_data = Inl e"
    by (simp add: calculate_mean_body_def exn_bind_def)
  have kind: "(e = ValueError \<or> e = OverflowError) \<and>
      (e = ValueError \<longleftrightarrow> (\<exists>s. bad = PStr s \<and> float_of_string s = None))"
    using assms(3)
    by (cases bad) (auto simp: py_float_def int_to_float_def Let_def split: option.splits if_splits)
  from body kind show ?thesis
    by (auto simp: calculate_mean_def)
qed

lemma bad_a: "py_float (PStr ''a'') = Inl ValueError" "py_float (PInt 1) = Inr (Fin 1 0)"
  by code_simp+

theorem calculate_mean_first_failure_witness:
  "calculate_mean [PInt 1, PStr ''a'', PInt 2] = Inr (PStr ''Cannot divide by zero'')"
  using calculate_mean_first_failure [of "[PInt 1, PStr ''a'', PInt 2]" "[PInt 1]" "PStr ''a''" "[PInt 2]" ValueError]
  by (simp add: bad_a)

theorem calculate_mean_overflow_counterexample:
  "py_float (PInt (2 ^ 1024)) = Inl OverflowError \<and>
   calculate_mean [PInt (2 ^ 1024)] = Inl OverflowError"
  by code_simp

section \<open>Dates\<close>

lemma fromisoformat_parse:
  assumes "iso_date_fields s = Some (y, m, d)"
  shows "py_fromisoformat (s @ r) =
    (if (r = [] \<or> iso_time_ok (tl r)) \<and> valid_date y m d then Inr (Date y m d) else Inl ValueError)"
proof -
  from assms have len: "length s = 10"
    and dg: "list_all is_digit (take 4 s)" "list_all is_digit (take 2 (drop 5 s))" "list_all is_digit (drop 8 s)"
    and hy: "s ! 4 = CHR ''-''" "s ! 7 = CHR ''-''"
    and val: "y = digits_val (take 4 s)" "m = digits_val (take 2 (drop 5 s))" "d = digits_val (drop 8 s)"
    by (auto simp: iso_date_fields_def split: if_splits)
  have d4: "drop 4 s = CHR ''-'' # drop 5 s"
    using Cons_nth_drop_Suc [of 4 s] len hy(1) by simp
  have d7: "drop 7 s = CHR ''-'' # drop 8 s"
    using Cons_nth_drop_Suc [of 7 s] len hy(2) by simp
  have 1: "take_digits 4 (s @ r) = Some (y, CHR ''-'' # drop 5 s @ r)"
    using len dg(1) val(1) d4 by (simp add: take_digits_def)
  have 3: "take_digits 2 (drop 5 s @ r) = Some (m, CHR ''-'' # drop 8 s @ r)"
    using len dg(2) val(2) d7 by (simp add: take_digits_def)
  have 5: "take_digits 2 (drop 8 s @ r) = Some (d, r)"
    using len dg(3) val(3) by (simp add: take_digits_def)
  show ?thesis
    by (simp add: py_fromisoformat_def 1 3 5 starts_with_def)
qed

lemma convert_date_calendar:
  assumes "iso_date_fields s = Some (y, m, d)"
  shows "convert_date (PStr (s @ r)) =
    (if (r = [] \<or> iso_time_ok (tl r)) \<and> valid_date y m d
     then Inr (strftime_A_d_B_Y (Date y m d)) else Inl ValueError)"
  by (simp add: convert_date_def exn_bind_def fromisoformat_parse [OF assms])





section \<open>The overview summary completes\<close>

lemma exn_bind_Inr: "exn_bind (Inr x) f = f x"
  by (simp add: exn_bind_def)

lemma exn_map_total:
  assumes "\<forall>x \<in> set xs. \<exists>y. f x = Inr y"
  shows "\<exists>ys. exn_map f xs = Inr ys \<and> length ys = length xs"
  using assms by (induction xs) (auto split: sum.splits)

lemma exn_map_PFloat: "exn_map py_float (map PFloat fs) = Inr fs"
  by (induction fs) (simp_all add: py_float_def)

lemma float_lit_9: "\<not> is_zero (float_lit 9)"
  by code_simp

lemma convert_f_to_c_float: "\<exists>c. convert_f_to_c (PFloat f) = Inr c"
proof -
  from fdiv_total [OF float_lit_9]
  obtain q where "fdiv (fmul (fsub f (float_lit 32)) (float_lit 5)) (float_lit 9) = Inr q"
    by blast
  then show ?thesis
    by (simp add: convert_f_to_c_def exn_bind_def py_float_def)
qed

lemma calculate_mean_floats:
  assumes "fs \<noteq> []"
  shows "\<exists>q. calculate_mean (map PFloat fs) = Inr (PFloat q)"
proof -
  have "map PFloat fs \<noteq> []" using assms by simp
  from calculate_mean_body_nonempty [OF this exn_map_PFloat]
  show ?thesis by (auto simp: calculate_mean_def)
qed

lemma find_min_floats:
  assumes "fs \<noteq> []"
  shows "\<exists>v i. find_min (map PFloat fs) = Inr (Some (v, int i)) \<and> i < length fs"
proof -
  have ne: "objects fs \<noteq> []" using assms by (simp add: objects_def)
  have "map PFloat fs \<noteq> []" using assms by simp
  from find_min_unfold [OF this exn_map_PFloat] last_index_of [OF py_min_mem [OF ne]]
  show ?thesis by auto
qed

lemma find_max_floats:
  assumes "fs \<noteq> []"
  shows "\<exists>v i. find_max (map PFloat fs) = Inr (Some (v, int i)) \<and> i < length fs"
proof -
  have ne: "objects fs \<noteq> []" using assms by (simp add: objects_def)
  have "map PFloat fs \<noteq> []" using assms by simp
  from find_max_unfold [OF this exn_map_PFloat] last_index_of [OF py_max_mem [OF ne]]
  show ?thesis by auto
qed

lemma date_lookup:
  assumes "i < length weather_data"
    and "\<forall>row \<in> set weather_data. 3 \<le> length row \<and> (\<exists>s. row ! 0 = PStr s \<and> is_iso_calendar_date s)"
  shows "\<exists>t. exn_bind (exn_bind (py_getitem weather_data (int i)) (\<lambda>row. py_getitem row 0)) convert_date
    = Inr t"
proof -
  from assms have "3 \<le> length (weather_data ! i)"
    and "\<exists>s. weather_data ! i ! 0 = PStr s \<and> is_iso_calendar_date s"
    by (simp_all add: nth_mem)
  then obtain s where s: "weather_data ! i ! 0 = PStr s" "is_iso_calendar_date s" by blast
  from s(2) obtain y m d where f: "iso_date_fields s = Some (y, m, d)" "valid_date y m d"
    by (auto simp: is_iso_calendar_date_def split: option.splits)
  from convert_date_calendar [OF f(1), of "[]"] f(2)
  have "convert_date (PStr s) = Inr (strftime_A_d_B_Y (Date y m d))" by simp
  moreover have "0 < length (weather_data ! i)"
    using \<open>3 \<le> length (weather_data ! i)\<close> by linarith
  ultimately show ?thesis
    using assms(1) s(1) by (simp add: exn_bind_def py_getitem_def)
qed

lemma column_floats_total:
  assumes "0 \<le> c"
    and "\<forall>row \<in> set weather_data. nat c < length row \<and> (\<exists>f. py_float (row ! nat c) = Inr f)"
  shows "\<exists>fs. column_floats c weather_data = Inr fs \<and> length fs = length weather_data"
  unfolding column_floats_def
proof (rule exn_map_total, rule ballI)
  fix row assume "row \<in> set weather_data"
  with assms show "\<exists>y. exn_bind (py_getitem row c) py_float = Inr y"
    by (auto simp: exn_bind_def py_getitem_def)
qed

text \<open>
  C10. For a non-empty dataset whose rows have at least three fields, a valid ISO date in
  field 0 and values that convert to floats in fields 1 and 2, \<^verbatim>\<open>generate_summary\<close> returns
  a string: the indices that \<^verbatim>\<open>find_min\<close> and \<^verbatim>\<open>find_max\<close> return for the two columns lie in
  \<open>0 \<le> i < len(weather_data)\<close>, so the two date lookups do not raise \<^verbatim>\<open>IndexError\<close>.
\<close>

theorem generate_summary_completes:
  assumes "weather_data \<noteq> []"
    and "\<forall>row \<in> set weather_data.
           3 \<le> length row \<and> (\<exists>s. row ! 0 = PStr s \<and> is_iso_calendar_date s) \<and>
           (\<exists>f. py_float (row ! 1) = Inr f) \<and> (\<exists>f. py_float (row ! 2) = Inr f)"
  shows "\<exists>min_temps max_temps v i w k summary.
      column_floats 1 weather_data = Inr min_temps \<and>
      column_floats 2 weather_data = Inr max_temps \<and>
      find_min (map PFloat min_temps) = Inr (Some (v, i)) \<and> 0 \<le> i \<and> i < int (length weather_data) \<and>
      find_max (map PFloat max_temps) = Inr (Some (w, k)) \<and> 0 \<le> k \<and> k < int (length weather_data) \<and>
      generate_summary weather_data = Inr summary"
proof -
  have dates: "\<forall>row \<in> set weather_data. 3 \<le> length row \<and> (\<exists>s. row ! 0 = PStr s \<and> is_iso_calendar_date s)"
    using assms(2) by blast
  have "\<forall>row \<in> set weather_data. nat 1 < length row \<and> (\<exists>f. py_float (row ! nat 1) = Inr f)"
    using assms(2) by fastforce
  from column_floats_total [OF _ this] obtain min_temps
    where mins: "column_floats 1 weather_data = Inr min_temps" "length min_temps = length weather_data"
    by auto
  have "\<forall>row \<in> set weather_data. nat 2 < length row \<and> (\<exists>f. py_float (row ! nat 2) = Inr f)"
    using assms(2) by fastforce
  from column_floats_total [OF _ this] obtain max_temps
    where maxs: "column_floats 2 weather_data = Inr max_temps" "length max_temps = length weather_data"
    by auto
  have ne: "min_temps \<noteq> []" "max_temps \<noteq> []"
    using assms(1) mins(2) maxs(2) by auto
  from find_min_floats [OF ne(1)] obtain v i
    where fmin: "find_min (map PFloat min_temps) = Inr (Some (v, int i))" "i < length weather_data"
    using mins(2) by auto
  from find_max_floats [OF ne(2)] obtain w k
    where fmax: "find_max (map PFloat max_temps) = Inr (Some (w, int k))" "k < length weather_data"
    using maxs(2) by auto
  from convert_f_to_c_float obtain c1 where c1: "convert_f_to_c (PFloat v) = Inr c1" by blast
  from convert_f_to_c_float obtain c2 where c2: "convert_f_to_c (PFloat w) = Inr c2" by blast
  from date_lookup [OF fmin(2) dates] obtain d1 where d1:
    "exn_bind (exn_bind (py_getitem weather_data (int i)) (\<lambda>row. py_getitem row 0)) convert_date = Inr d1"
    by blast
  from date_lookup [OF fmax(2) dates] obtain d2 where d2:
    "exn_bind (exn_bind (py_getitem weather_data (int k)) (\<lambda>row. py_getitem row 0)) convert_date = Inr d2"
    by blast
  from calculate_mean_floats [OF ne(1)] obtain a1 where a1: "calculate_mean (map PFloat min_temps) = Inr (PFloat a1)"
    by blast
  from calculate_mean_floats [OF ne(2)] obtain a2 where a2: "calculate_mean (map PFloat max_temps) = Inr (PFloat a2)"
    by blast
  from convert_f_to_c_float obtain c3 where c3: "convert_f_to_c (PFloat a1) = Inr c3" by blast
  from convert_f_to_c_float obtain c4 where c4: "convert_f_to_c (PFloat a2) = Inr c4" by blast
  have "\<exists>summary. generate_summary weather_data = Inr summary"
    using assms(1)
    by (simp add: generate_summary_def mins(1) maxs(1) fmin(1) fmax(1) unpack_pair_def c1 c2 d1 d2 a1 a2 c3 c4
        exn_bind_Inr Let_def)
  with mins(1) maxs(1) fmin fmax show ?thesis
    by auto
qed

lemma summary_hyps:
  "is_iso_calendar_date ''2021-07-02''" "is_iso_calendar_date ''2021-07-03''"
  "py_float (PInt 49) = Inr (Fin 49 0)" "py_float (PInt 77) = Inr (Fin 77 0)"
  "py_float (PInt 57) = Inr (Fin 57 0)" "py_float (PInt 68) = Inr (Fin 17 2)"
  by code_simp+

theorem generate_summary_witness:
  "\<exists>summary. generate_summary [[PStr ''2021-07-02'', PInt 49, PInt 77], [PStr ''2021-07-03'', PInt 57, PInt 68]]
     = Inr summary"
proof -
  have "\<forall>row \<in> set [[PStr ''2021-07-02'', PInt 49, PInt 77], [PStr ''2021-07-03'', PInt 57, PInt 68]].
           3 \<le> length row \<and> (\<exists>s. row ! 0 = PStr s \<and> is_iso_calendar_date s) \<and>
           (\<exists>f. py_float (row ! 1) = Inr f) \<and> (\<exists>f. py_float (row ! 2) = Inr f)"
    by (simp add: summary_hyps)
  from generate_summary_completes [OF _ this] show ?thesis
    by blast
qed

section \<open>The Celsius conversion\<close>

lemma celsius_examples:
  "convert_f_to_c (PInt 32) = py_float (PStr ''0.0'')"
  "convert_f_to_c (PInt 212) = py_float (PStr ''100.0'')"
  "convert_f_to_c (PInt 145) = py_float (PStr ''62.8'')"
  "convert_f_to_c (PStr ''145'') = py_float (PStr ''62.8'')"
  "py_float (PStr ''0.0'') = Inr (Fin 0 0)"
  "py_float (PStr ''100.0'') = Inr (Fin 25 2)"
  "py_float (PStr ''62.8'') = Inr (Fin 4419157134357299 (- 46))"
  "py_float (PStr ''abc'') = Inl ValueError"
  by code_simp+

text \<open>
  C5. For every value \<open>v\<close> that \<^verbatim>\<open>float\<close> converts, \<^verbatim>\<open>convert_f_to_c\<close> returns
  \<^verbatim>\<open>(float(v) - 32) * 5 / 9\<close>, a quotient that always exists, rounded by \<^verbatim>\<open>round(_, 1)\<close> to one
  decimal place; for every value that \<^verbatim>\<open>float\<close> refuses, the conversion error reaches the
  caller, and it is \<^verbatim>\<open>ValueError\<close> for a string that is not a number. In particular
  \<^verbatim>\<open>convert_f_to_c(32) == 0.0\<close>, \<^verbatim>\<open>convert_f_to_c(212) == 100.0\<close> and
  \<^verbatim>\<open>convert_f_to_c(145) == 62.8\<close>, the floats that the decimals \<^verbatim>\<open>100.0\<close> and \<^verbatim>\<open>62.8\<close> denote.
\<close>

theorem convert_f_to_c_rounds_to_one_decimal:
  "(\<forall>x. py_float v = Inr x \<longrightarrow>
      (\<exists>celsius. fdiv (fmul (fsub x (float_lit 32)) (float_lit 5)) (float_lit 9) = Inr celsius \<and>
         convert_f_to_c v = Inr (py_round1 celsius))) \<and>
   (\<forall>e. py_float v = Inl e \<longrightarrow> convert_f_to_c v = Inl e) \<and>
   (\<forall>s. float_of_string s = None \<longrightarrow> convert_f_to_c (PStr s) = Inl ValueError) \<and>
   convert_f_to_c (PInt 32) = Inr (Fin 0 0) \<and>
   convert_f_to_c (PInt 212) = Inr (Fin 25 2) \<and>
   py_float (PStr ''100.0'') = Inr (Fin 25 2) \<and>
   convert_f_to_c (PInt 145) = py_float (PStr ''62.8'') \<and>
   py_float (PStr ''62.8'') = Inr (Fin 4419157134357299 (- 46))"
proof -
  have general: "\<forall>x. py_float v = Inr x \<longrightarrow>
      (\<exists>celsius. fdiv (fmul (fsub x (float_lit 32)) (float_lit 5)) (float_lit 9) = Inr celsius \<and>
         convert_f_to_c v = Inr (py_round1 celsius))"
  proof (intro allI impI)
    fix x assume x: "py_float v = Inr x"
    from fdiv_total [OF float_lit_9]
    obtain q where q: "fdiv (fmul (fsub x (float_lit 32)) (float_lit 5)) (float_lit 9) = Inr q"
      by blast
    have "convert_f_to_c v = Inr (py_round1 q)"
      by (simp add: convert_f_to_c_def x q exn_bind_Inr)
    with q show "\<exists>celsius. fdiv (fmul (fsub x (float_lit 32)) (float_lit 5)) (float_lit 9) = Inr celsius \<and>
         convert_f_to_c v = Inr (py_round1 celsius)" by blast
  qed
  have failure: "\<forall>e. py_float v = Inl e \<longrightarrow> convert_f_to_c v = Inl e"
    by (simp add: convert_f_to_c_def exn_bind_def)
  have strings: "\<forall>s. float_of_string s = None \<longrightarrow> convert_f_to_c (PStr s) = Inl ValueError"
    by (simp add: convert_f_to_c_def exn_bind_def py_float_def)
  from general failure strings show ?thesis
    using celsius_examples by simp
qed

theorem convert_f_to_c_witness:
  "convert_f_to_c (PStr ''145'') = Inr (py_round1 (Fin 8835186768973369 (- 47))) \<and>
   py_round1 (Fin 8835186768973369 (- 47)) = Fin 4419157134357299 (- 46) \<and>
   convert_f_to_c (PInt (2 ^ 1024)) = Inl OverflowError \<and>
   convert_f_to_c (PStr ''abc'') = Inl ValueError"
proof -
  have a: "py_float (PStr ''145'') = Inr (Fin 145 0)" by code_simp
  have b: "fdiv (fmul (fsub (Fin 145 0) (float_lit 32)) (float_lit 5)) (float_lit 9)
             = Inr (Fin 8835186768973369 (- 47))" by code_simp
  have c: "py_float (PInt (2 ^ 1024)) = Inl OverflowError" by code_simp
  have d: "float_of_string ''abc'' = None" by code_simp
  have e: "py_round1 (Fin 8835186768973369 (- 47)) = Fin 4419157134357299 (- 46)" by code_simp
  from convert_f_to_c_rounds_to_one_decimal [of "PStr ''145''"] a b
  have 1: "convert_f_to_c (PStr ''145'') = Inr (py_round1 (Fin 8835186768973369 (- 47)))" by simp
  from convert_f_to_c_rounds_to_one_decimal [of "PInt (2 ^ 1024)"] c
  have 2: "convert_f_to_c (PInt (2 ^ 1024)) = Inl OverflowError" by blast
  from convert_f_to_c_rounds_to_one_decimal [of "PInt 0"] d
  have 3: "convert_f_to_c (PStr ''abc'') = Inl ValueError" by blast
  from 1 2 3 e show ?thesis by simp
qed

section \<open>The daily summary and its trailing blank line\<close>

lemma py_join_terminated:
  "bs \<noteq> [] \<Longrightarrow> py_join sep bs @ sep = concat (map (\<lambda>b. b @ sep) bs)"
  by (induction sep bs rule: py_join.induct) simp_all

lemma exn_map_results:
  "exn_map f xs = Inr ys \<Longrightarrow> length ys = length xs \<and> (\<forall>y \<in> set ys. \<exists>x \<in> set xs. f x = Inr y)"
  by (induction xs arbitrary: ys) (auto split: sum.splits)

lemma day_summary_end:
  assumes "day_summary row = Inr b"
  shows "\<exists>t. b = t @ DEGREE_SYMBOL @ newline"
proof -
  from assms obtain d c1 c2 where
    "b = ''---- '' @ d @ '' ----'' @ newline
         @ ''  Minimum Temperature: '' @ format_temperature (PFloat c1) @ newline
         @ ''  Maximum Temperature: '' @ format_temperature (PFloat c2) @ newline"
    unfolding day_summary_def exn_bind_def Let_def
    by (auto split: sum.splits)
  then have "b = (''---- '' @ d @ '' ----'' @ newline
         @ ''  Minimum Temperature: '' @ format_temperature (PFloat c1) @ newline
         @ ''  Maximum Temperature: '' @ py_str (PFloat c2)) @ DEGREE_SYMBOL @ newline"
    by (simp add: format_temperature_def)
  then show ?thesis by blast
qed

lemma two_newlines_not_single: "\<not> single_trailing_newline (t @ newline @ newline)"
  by (simp add: single_trailing_newline_def newline_def butlast_append)

text \<open>
  C3 (amended). When \<^verbatim>\<open>generate_daily_summary\<close> returns, the string is the per-day blocks in
  order, each followed by one empty line: one blank line separates two blocks, and the
  string of a non-empty dataset ends with the last block's newline and one more, a
  trailing blank line, not a single newline. For the empty dataset the result is
  exactly one newline.
\<close>

theorem generate_daily_summary_blank_line_after_each_block:
  "generate_daily_summary [] = Inr newline \<and>
   (weather_data \<noteq> [] \<and> generate_daily_summary weather_data = Inr s \<longrightarrow>
      (\<exists>blocks. exn_map day_summary weather_data = Inr blocks \<and>
         length blocks = length weather_data \<and>
         s = concat (map (\<lambda>b. b @ newline) blocks) \<and>
         (\<forall>b \<in> set blocks. \<exists>t. b = t @ DEGREE_SYMBOL @ newline) \<and>
         (\<exists>t. s = t @ DEGREE_SYMBOL @ newline @ newline) \<and>
         \<not> single_trailing_newline s))"
proof (intro conjI impI)
  show "generate_daily_summary [] = Inr newline"
    by (simp add: generate_daily_summary_def exn_bind_def)
next
  assume a: "weather_data \<noteq> [] \<and> generate_daily_summary weather_data = Inr s"
  then obtain blocks where blocks: "exn_map day_summary weather_data = Inr blocks"
    and s: "s = py_join newline blocks @ newline"
    by (auto simp: generate_daily_summary_def exn_bind_def split: sum.splits)
  from exn_map_results [OF blocks] have len: "length blocks = length weather_data"
    and each: "\<forall>b \<in> set blocks. \<exists>row \<in> set weather_data. day_summary row = Inr b"
    by simp_all
  from len a have ne: "blocks \<noteq> []" by auto
  have cat: "s = concat (map (\<lambda>b. b @ newline) blocks)"
    using s py_join_terminated [OF ne] by simp
  have ends: "\<forall>b \<in> set blocks. \<exists>t. b = t @ DEGREE_SYMBOL @ newline"
    using each day_summary_end by blast
  from ne obtain front b where fb: "blocks = front @ [b]"
    by (metis append_butlast_last_id)
  with ends obtain t where t: "b = t @ DEGREE_SYMBOL @ newline" by auto
  have tail: "s = (concat (map (\<lambda>b. b @ newline) front) @ t) @ DEGREE_SYMBOL @ newline @ newline"
    by (simp add: cat fb t)
  then have ex: "\<exists>t. s = t @ DEGREE_SYMBOL @ newline @ newline" by blast
  have "s = (concat (map (\<lambda>b. b @ newline) front) @ t @ DEGREE_SYMBOL) @ newline @ newline"
    using tail by simp
  then have "\<not> single_trailing_newline s"
    using two_newlines_not_single by metis
  with blocks len cat ends ex
  show "\<exists>blocks. exn_map day_summary weather_data = Inr blocks \<and>
         length blocks = length weather_data \<and>
         s = concat (map (\<lambda>b. b @ newline) blocks) \<and>
         (\<forall>b \<in> set blocks. \<exists>t. b = t @ DEGREE_SYMBOL @ newline) \<and>
         (\<exists>t. s = t @ DEGREE_SYMBOL @ newline @ newline) \<and>
         \<not> single_trailing_newline s"
    by blast
qed

lemma day_block_example:
  "generate_daily_summary [[PStr ''2021-07-06'', PInt 32, PInt 32]] =
     Inr (''---- Tuesday 06 July 2021 ----'' @ newline
          @ ''  Minimum Temperature: 0.0'' @ DEGREE_SYMBOL @ newline
          @ ''  Maximum Temperature: 0.0'' @ DEGREE_SYMBOL @ newline @ newline)"
  by code_simp

theorem generate_daily_summary_witness:
  "\<exists>t. generate_daily_summary [[PStr ''2021-07-06'', PInt 32, PInt 32]]
          = Inr (t @ DEGREE_SYMBOL @ newline @ newline)"
proof -
  have ne: "[[PStr ''2021-07-06'', PInt 32, PInt 32]] \<noteq> []" by simp
  from generate_daily_summary_blank_line_after_each_block
    [of "[[PStr ''2021-07-06'', PInt 32, PInt 32]]"
        "''---- Tuesday 06 July 2021 ----'' @ newline
          @ ''  Minimum Temperature: 0.0'' @ DEGREE_SYMBOL @ newline
          @ ''  Maximum Temperature: 0.0'' @ DEGREE_SYMBOL @ newline @ newline"]
    ne day_block_example
  obtain t where "''---- Tuesday 06 July 2021 ----'' @ newline
          @ ''  Minimum Temperature: 0.0'' @ DEGREE_SYMBOL @ newline
          @ ''  Maximum Temperature: 0.0'' @ DEGREE_SYMBOL @ newline @ newline = t @ DEGREE_SYMBOL @ newline @ newline"
    by blast
  with day_block_example show ?thesis by metis
qed

theorem generate_daily_summary_counterexample:
  "generate_daily_summary [[PStr ''2021-07-06'', PInt 32, PInt 32]] =
     Inr (''---- Tuesday 06 July 2021 ----'' @ [CHR 0x0A]
          @ ''  Minimum Temperature: 0.0'' @ [CHR 0xB0, CHR ''C'', CHR 0x0A]
          @ ''  Maximum Temperature: 0.0'' @ [CHR 0xB0, CHR ''C'', CHR 0x0A, CHR 0x0A]) \<and>
   \<not> single_trailing_newline
       (''---- Tuesday 06 July 2021 ----'' @ [CHR 0x0A]
          @ ''  Minimum Temperature: 0.0'' @ [CHR 0xB0, CHR ''C'', CHR 0x0A]
          @ ''  Maximum Temperature: 0.0'' @ [CHR 0xB0, CHR ''C'', CHR 0x0A, CHR 0x0A])"
  by code_simp

end
